theory Spec2Isabelle
  imports Main
begin

section \<open>Values at the HTTP and at the SQL boundary\<close>

text \<open>
  \<^verbatim>\<open>server.js\<close> is an Express application over one SQLite connection. Its handlers
  destructure JSON bodies, hand the values to parameterised statements and answer from
  the statement's callback. The embedding keeps the three layers apart: JavaScript
  values (\<open>jsval\<close>), SQLite values (\<open>sqlval\<close>) and the rows of the four tables.

  An object (a parsed body, a query string, a result row) is an association list that
  holds each key once. A body field that is absent destructures to \<open>undefined\<close>. Numbers
  are modelled as integers (the schema stores no REAL column); objects, arrays and
  buffers as body fields are outside the model.
\<close>

datatype jsval = JUndefined | JNull | JBool bool | JNum int | JStr string

type_synonym obj = "(string \<times> jsval) list"

definition js_get :: "obj \<Rightarrow> string \<Rightarrow> jsval" where
  "js_get body k = (case map_of body k of None \<Rightarrow> JUndefined | Some v \<Rightarrow> v)"

datatype sqlval = SNull | SInt int | SText string

text \<open>
  How the sqlite3 driver binds a JavaScript value to a \<open>?\<close>: \<open>null\<close> binds NULL, an
  \<open>undefined\<close> parameter is left unbound (which SQLite reads as NULL), a boolean
  binds 1 or 0. Every number binds as an integer here; the driver binds a number outside
  the 32-bit range as a double, which a TEXT column prints with a fraction part.
\<close>

fun bind_param :: "jsval \<Rightarrow> sqlval" where
  "bind_param JUndefined = SNull"
| "bind_param JNull = SNull"
| "bind_param (JBool b) = SInt (if b then 1 else 0)"
| "bind_param (JNum n) = SInt n"
| "bind_param (JStr s) = SText s"

fun js_of_sql :: "sqlval \<Rightarrow> jsval" where
  "js_of_sql SNull = JNull"
| "js_of_sql (SInt n) = JNum n"
| "js_of_sql (SText s) = JStr s"

subsection \<open>Decimal text\<close>

text \<open>
  SQLite converts between text and integers when a value meets a column of the other
  affinity. The model recognises an optional minus sign followed by decimal digits
  (SQLite accepts more spellings of a number: surrounding blanks, a plus sign, an
  exponent). The theorems below only use that both directions are functions.
\<close>

definition digit_of :: "char \<Rightarrow> nat option" where
  "digit_of c = (let n = (of_char c :: nat) in if 48 \<le> n \<and> n \<le> 57 then Some (n - 48) else None)"

fun digits_val :: "string \<Rightarrow> nat \<Rightarrow> nat option" where
  "digits_val [] acc = Some acc"
| "digits_val (c # cs) acc =
     (case digit_of c of None \<Rightarrow> None | Some d \<Rightarrow> digits_val cs (10 * acc + d))"

definition num_of :: "string \<Rightarrow> int option" where
  "num_of s =
     (case s of
        [] \<Rightarrow> None
      | c # cs \<Rightarrow>
          if c = CHR ''-''
          then (if cs = [] then None else map_option (\<lambda>n. - int n) (digits_val cs 0))
          else map_option int (digits_val s 0))"

fun dec_of_nat :: "nat \<Rightarrow> string" where
  "dec_of_nat n =
     (if n < 10 then [char_of (48 + n)]
      else dec_of_nat (n div 10) @ [char_of (48 + n mod 10)])"

declare dec_of_nat.simps [simp del]

definition dec_of_int :: "int \<Rightarrow> string" where
  "dec_of_int i = (if i < 0 then CHR ''-'' # dec_of_nat (nat (- i)) else dec_of_nat (nat i))"

section \<open>The schema\<close>

text \<open>
  The four \<^verbatim>\<open>CREATE TABLE IF NOT EXISTS\<close> statements of \<^verbatim>\<open>db.serialize\<close>, column by
  column. \<^verbatim>\<open>description TEXT\<close> carries no constraint and \<^verbatim>\<open>resetTokenId TEXT NULL\<close>
  is declared nullable. The two \<^verbatim>\<open>FOREIGN KEY\<close> clauses of the mapping table are not
  enforced: SQLite checks them only after \<^verbatim>\<open>PRAGMA foreign_keys = ON\<close>, which the
  program never issues.
\<close>

datatype coltype = INTEGER | TEXT | BOOLEAN

datatype colconstraint = PRIMARY_KEY_AUTOINCREMENT | NOT_NULL | NULLABLE

type_synonym column = "string \<times> coltype \<times> colconstraint"

definition users_table :: "column list" where
  "users_table =
     [(''userid'', INTEGER, PRIMARY_KEY_AUTOINCREMENT),
      (''username'', TEXT, NOT_NULL),
      (''password'', TEXT, NOT_NULL),
      (''email'', TEXT, NOT_NULL),
      (''timestamp'', TEXT, NOT_NULL),
      (''resetTokenId'', TEXT, NULLABLE)]"

definition transactions_table :: "column list" where
  "transactions_table =
     [(''transactionid'', INTEGER, PRIMARY_KEY_AUTOINCREMENT),
      (''isExpense'', BOOLEAN, NOT_NULL),
      (''amount'', INTEGER, NOT_NULL),
      (''categoryid'', INTEGER, NOT_NULL),
      (''description'', TEXT, NULLABLE),
      (''timestamp'', TEXT, NOT_NULL)]"

definition user_transaction_mapping_table :: "column list" where
  "user_transaction_mapping_table =
     [(''userid'', INTEGER, NOT_NULL),
      (''transactionid'', INTEGER, NOT_NULL)]"

definition resetTokens_table :: "column list" where
  "resetTokens_table =
     [(''id'', INTEGER, PRIMARY_KEY_AUTOINCREMENT),
      (''token'', TEXT, NOT_NULL),
      (''expiresAt'', TEXT, NOT_NULL)]"

definition schema :: "(string \<times> column list) list" where
  "schema =
     [(''users'', users_table),
      (''transactions'', transactions_table),
      (''user_transaction_mapping'', user_transaction_mapping_table),
      (''resetTokens'', resetTokens_table)]"

definition nullable_columns :: "(string \<times> string) list" where
  "nullable_columns =
     concat (map (\<lambda>(tbl, cols). map (\<lambda>(c, ty, k). (tbl, c)) (filter (\<lambda>(c, ty, k). k = NULLABLE) cols))
       schema)"

text \<open>
  The schema as a listing of tables and, per column, name, declared type and whether the
  column may hold NULL. An \<^verbatim>\<open>INTEGER PRIMARY KEY\<close> column is the rowid and never holds NULL.
\<close>

definition column_listing :: "(string \<times> (string \<times> coltype \<times> bool) list) list" where
  "column_listing = map (\<lambda>(tbl, cols). (tbl, map (\<lambda>(c, ty, k). (c, ty, k = NULLABLE)) cols)) schema"

text \<open>
  Column affinity: a TEXT column stores a number as its decimal text; an INTEGER or a
  BOOLEAN (numeric affinity) column stores text that reads as a number as that number
  and keeps any other text as text. There is no REAL value in the model: a number that
  SQLite would store as REAL (a fraction, or decimal text beyond 64 bits) stays an
  integer here.
\<close>

fun affinity :: "coltype \<Rightarrow> sqlval \<Rightarrow> sqlval" where
  "affinity TEXT (SInt n) = SText (dec_of_int n)"
| "affinity TEXT v = v"
| "affinity ty (SText s) = (case num_of s of Some n \<Rightarrow> SInt n | None \<Rightarrow> SText s)"
| "affinity ty v = v"

definition stored :: "column list \<Rightarrow> string \<Rightarrow> sqlval \<Rightarrow> sqlval" where
  "stored cols c v = (case map_of cols c of Some (ty, k) \<Rightarrow> affinity ty v | None \<Rightarrow> v)"

definition violates :: "column list \<Rightarrow> string \<Rightarrow> sqlval \<Rightarrow> bool" where
  "violates cols c v =
     (v = SNull \<and> (case map_of cols c of Some (ty, k) \<Rightarrow> k = NOT_NULL | None \<Rightarrow> False))"

definition constraint_failed :: "string \<Rightarrow> string \<Rightarrow> string" where
  "constraint_failed tbl c = ''SQLITE_CONSTRAINT: NOT NULL constraint failed: '' @ tbl @ ''.'' @ c"

fun first_violation :: "string \<Rightarrow> column list \<Rightarrow> (string \<times> sqlval) list \<Rightarrow> string option" where
  "first_violation tbl cols [] = None"
| "first_violation tbl cols ((c, v) # vs) =
     (if violates cols c v then Some (constraint_failed tbl c) else first_violation tbl cols vs)"

text \<open>
  The comparison \<^verbatim>\<open>column = ?\<close>: the column's affinity is applied to the bound
  parameter, NULL equals nothing, and an integer never equals a text.
\<close>

fun sql_eq :: "sqlval \<Rightarrow> sqlval \<Rightarrow> bool" where
  "sql_eq (SInt a) (SInt b) = (a = b)"
| "sql_eq (SText a) (SText b) = (a = b)"
| "sql_eq v w = False"

definition where_eq :: "coltype \<Rightarrow> sqlval \<Rightarrow> sqlval \<Rightarrow> bool" where
  "where_eq ty v p = sql_eq v (affinity ty p)"

section \<open>The store\<close>

record user_row =
  u_userid :: int
  u_username :: sqlval
  u_password :: sqlval
  u_email :: sqlval
  u_timestamp :: sqlval
  u_resetTokenId :: sqlval

record transaction_row =
  t_transactionid :: int
  t_isExpense :: sqlval
  t_amount :: sqlval
  t_categoryid :: sqlval
  t_description :: sqlval
  t_timestamp :: sqlval

record mapping_row =
  utm_userid :: sqlval
  utm_transactionid :: sqlval

record token_row =
  rt_id :: int
  rt_token :: sqlval
  rt_expiresAt :: sqlval

text \<open>
  The three \<open>_seq\<close> fields are the rows of \<^verbatim>\<open>sqlite_sequence\<close> that AUTOINCREMENT
  keeps: the largest rowid each table has ever held.
\<close>

record store =
  users :: "user_row list"
  users_seq :: int
  transactions :: "transaction_row list"
  transactions_seq :: int
  user_transaction_mapping :: "mapping_row list"
  resetTokens :: "token_row list"
  resetTokens_seq :: int

definition init_store :: store where
  "init_store =
     \<lparr>users = [], users_seq = 0, transactions = [], transactions_seq = 0,
      user_transaction_mapping = [], resetTokens = [], resetTokens_seq = 0\<rparr>"

definition max_rowid :: int where
  "max_rowid = 9223372036854775807"

definition new_rowid :: "int \<Rightarrow> int list \<Rightarrow> string + int" where
  "new_rowid seq ids =
     (let r = fold max ids seq
      in if max_rowid \<le> r then Inl ''SQLITE_FULL: database or disk is full'' else Inr (r + 1))"

definition user_obj :: "user_row \<Rightarrow> obj" where
  "user_obj u =
     [(''userid'', JNum (u_userid u)),
      (''username'', js_of_sql (u_username u)),
      (''password'', js_of_sql (u_password u)),
      (''email'', js_of_sql (u_email u)),
      (''timestamp'', js_of_sql (u_timestamp u)),
      (''resetTokenId'', js_of_sql (u_resetTokenId u))]"

definition transaction_obj :: "transaction_row \<Rightarrow> obj" where
  "transaction_obj t =
     [(''transactionid'', JNum (t_transactionid t)),
      (''isExpense'', js_of_sql (t_isExpense t)),
      (''amount'', js_of_sql (t_amount t)),
      (''categoryid'', js_of_sql (t_categoryid t)),
      (''description'', js_of_sql (t_description t)),
      (''timestamp'', js_of_sql (t_timestamp t))]"

definition token_obj :: "token_row \<Rightarrow> obj" where
  "token_obj r =
     [(''id'', JNum (rt_id r)),
      (''token'', js_of_sql (rt_token r)),
      (''expiresAt'', js_of_sql (rt_expiresAt r))]"

section \<open>The statements of the program\<close>

text \<open>
  One constructor per SQL text that \<^verbatim>\<open>server.js\<close> passes to \<^verbatim>\<open>db.run\<close>, with its
  parameters in the order of the \<open>?\<close> placeholders.
\<close>

datatype stmt =
    INSERT_users jsval jsval jsval jsval
  | INSERT_resetTokens jsval jsval
  | UPDATE_users_resetTokenId jsval jsval
  | UPDATE_users_password jsval jsval
  | INSERT_transactions jsval jsval jsval jsval jsval
  | INSERT_user_transaction_mapping jsval jsval
  | DELETE_transactions jsval
  | DELETE_user_transaction_mapping jsval

text \<open>The statements passed to \<^verbatim>\<open>db.all\<close> and \<^verbatim>\<open>db.get\<close>.\<close>

datatype query =
    SELECT_1
  | SELECT_users
  | SELECT_resetTokens jsval
  | SELECT_transactions_of_user jsval

text \<open>
  What a \<^verbatim>\<open>db.run\<close> callback reads from \<^verbatim>\<open>this\<close>. The handlers read \<open>lastID\<close>
  after the inserts into the two AUTOINCREMENT tables and \<open>changes\<close> after the delete
  from \<^verbatim>\<open>transactions\<close>; the other callbacks read neither, and the model leaves
  \<open>lastID\<close> at 0 there.
\<close>

record run_ctx =
  lastID :: int
  changes :: nat

text \<open>
  A statement either fails with SQLite's message and changes nothing (a failing
  statement is rolled back), or yields the new store.
\<close>

fun exec :: "stmt \<Rightarrow> store \<Rightarrow> string + (store \<times> run_ctx)" where
  "exec (INSERT_users p1 p2 p3 p4) db =
     (case new_rowid (users_seq db) (map u_userid (users db)) of
        Inl e \<Rightarrow> Inl e
      | Inr rid \<Rightarrow>
          (case first_violation ''users'' users_table
                  [(''username'', bind_param p1), (''password'', bind_param p2),
                   (''email'', bind_param p3), (''timestamp'', bind_param p4)] of
             Some e \<Rightarrow> Inl e
           | None \<Rightarrow>
               Inr (db\<lparr>users := users db @
                          [\<lparr>u_userid = rid,
                            u_username = stored users_table ''username'' (bind_param p1),
                            u_password = stored users_table ''password'' (bind_param p2),
                            u_email = stored users_table ''email'' (bind_param p3),
                            u_timestamp = stored users_table ''timestamp'' (bind_param p4),
                            u_resetTokenId = SNull\<rparr>],
                        users_seq := rid\<rparr>,
                    \<lparr>lastID = rid, changes = 1\<rparr>)))"
| "exec (INSERT_resetTokens p1 p2) db =
     (case new_rowid (resetTokens_seq db) (map rt_id (resetTokens db)) of
        Inl e \<Rightarrow> Inl e
      | Inr rid \<Rightarrow>
          (case first_violation ''resetTokens'' resetTokens_table
                  [(''token'', bind_param p1), (''expiresAt'', bind_param p2)] of
             Some e \<Rightarrow> Inl e
           | None \<Rightarrow>
               Inr (db\<lparr>resetTokens := resetTokens db @
                          [\<lparr>rt_id = rid,
                            rt_token = stored resetTokens_table ''token'' (bind_param p1),
                            rt_expiresAt = stored resetTokens_table ''expiresAt'' (bind_param p2)\<rparr>],
                        resetTokens_seq := rid\<rparr>,
                    \<lparr>lastID = rid, changes = 1\<rparr>)))"
| "exec (UPDATE_users_resetTokenId p1 p2) db =
     (let hit = (\<lambda>u. where_eq INTEGER (SInt (u_userid u)) (bind_param p2))
      in if filter hit (users db) \<noteq> [] \<and> violates users_table ''resetTokenId'' (bind_param p1)
         then Inl (constraint_failed ''users'' ''resetTokenId'')
         else Inr (db\<lparr>users :=
                        map (\<lambda>u. if hit u
                                 then u\<lparr>u_resetTokenId := stored users_table ''resetTokenId'' (bind_param p1)\<rparr>
                                 else u) (users db)\<rparr>,
                   \<lparr>lastID = 0, changes = length (filter hit (users db))\<rparr>))"
| "exec (UPDATE_users_password p1 p2) db =
     (let hit = (\<lambda>u. where_eq INTEGER (SInt (u_userid u)) (bind_param p2))
      in if filter hit (users db) \<noteq> [] \<and> violates users_table ''password'' (bind_param p1)
         then Inl (constraint_failed ''users'' ''password'')
         else Inr (db\<lparr>users :=
                        map (\<lambda>u. if hit u
                                 then u\<lparr>u_password := stored users_table ''password'' (bind_param p1)\<rparr>
                                 else u) (users db)\<rparr>,
                   \<lparr>lastID = 0, changes = length (filter hit (users db))\<rparr>))"
| "exec (INSERT_transactions p1 p2 p3 p4 p5) db =
     (case new_rowid (transactions_seq db) (map t_transactionid (transactions db)) of
        Inl e \<Rightarrow> Inl e
      | Inr rid \<Rightarrow>
          (case first_violation ''transactions'' transactions_table
                  [(''isExpense'', bind_param p1), (''amount'', bind_param p2),
                   (''categoryid'', bind_param p3), (''description'', bind_param p4),
                   (''timestamp'', bind_param p5)] of
             Some e \<Rightarrow> Inl e
           | None \<Rightarrow>
               Inr (db\<lparr>transactions := transactions db @
                          [\<lparr>t_transactionid = rid,
                            t_isExpense = stored transactions_table ''isExpense'' (bind_param p1),
                            t_amount = stored transactions_table ''amount'' (bind_param p2),
                            t_categoryid = stored transactions_table ''categoryid'' (bind_param p3),
                            t_description = stored transactions_table ''description'' (bind_param p4),
                            t_timestamp = stored transactions_table ''timestamp'' (bind_param p5)\<rparr>],
                        transactions_seq := rid\<rparr>,
                    \<lparr>lastID = rid, changes = 1\<rparr>)))"
| "exec (INSERT_user_transaction_mapping p1 p2) db =
     (case first_violation ''user_transaction_mapping'' user_transaction_mapping_table
             [(''userid'', bind_param p1), (''transactionid'', bind_param p2)] of
        Some e \<Rightarrow> Inl e
      | None \<Rightarrow>
          Inr (db\<lparr>user_transaction_mapping := user_transaction_mapping db @
                     [\<lparr>utm_userid = stored user_transaction_mapping_table ''userid'' (bind_param p1),
                       utm_transactionid =
                         stored user_transaction_mapping_table ''transactionid'' (bind_param p2)\<rparr>]\<rparr>,
               \<lparr>lastID = 0, changes = 1\<rparr>))"
| "exec (DELETE_transactions p1) db =
     (let hit = (\<lambda>t. where_eq INTEGER (SInt (t_transactionid t)) (bind_param p1))
      in Inr (db\<lparr>transactions := filter (\<lambda>t. \<not> hit t) (transactions db)\<rparr>,
              \<lparr>lastID = 0, changes = length (filter hit (transactions db))\<rparr>))"
| "exec (DELETE_user_transaction_mapping p1) db =
     (let hit = (\<lambda>m. where_eq INTEGER (utm_transactionid m) (bind_param p1))
      in Inr (db\<lparr>user_transaction_mapping := filter (\<lambda>m. \<not> hit m) (user_transaction_mapping db)\<rparr>,
              \<lparr>lastID = 0, changes = length (filter hit (user_transaction_mapping db))\<rparr>))"

text \<open>
  The inner join of \<^verbatim>\<open>GET /api/transactions/:userId\<close>: one output row per pair of
  a transaction row and a mapping row with the same \<open>transactionid\<close> whose \<open>userid\<close>
  equals the parameter; only the transaction's columns are selected.
\<close>

fun rows_of :: "query \<Rightarrow> store \<Rightarrow> obj list" where
  "rows_of SELECT_1 db = [[(''1'', JNum 1)]]"
| "rows_of SELECT_users db = map user_obj (users db)"
| "rows_of (SELECT_resetTokens p1) db =
     map token_obj (filter (\<lambda>r. where_eq TEXT (rt_token r) (bind_param p1)) (resetTokens db))"
| "rows_of (SELECT_transactions_of_user p1) db =
     concat (map (\<lambda>t. map (\<lambda>m. transaction_obj t)
                        (filter (\<lambda>m. sql_eq (SInt (t_transactionid t)) (utm_transactionid m)
                                      \<and> where_eq INTEGER (utm_userid m) (bind_param p1))
                           (user_transaction_mapping db)))
               (transactions db))"

text \<open>
  The driver calls. \<open>fault\<close> is a failure of the store that is not decided by the
  statement and the rows (the file is unreachable, the disk is full, the database is
  locked): when it is present the call fails with that message and changes nothing.
\<close>

definition db_run :: "string option \<Rightarrow> store \<Rightarrow> stmt \<Rightarrow> string + (store \<times> run_ctx)" where
  "db_run fault db sql = (case fault of Some m \<Rightarrow> Inl m | None \<Rightarrow> exec sql db)"

definition db_all :: "string option \<Rightarrow> store \<Rightarrow> query \<Rightarrow> string + obj list" where
  "db_all fault db sql = (case fault of Some m \<Rightarrow> Inl m | None \<Rightarrow> Inr (rows_of sql db))"

definition db_get :: "string option \<Rightarrow> store \<Rightarrow> query \<Rightarrow> string + obj option" where
  "db_get fault db sql =
     (case fault of
        Some m \<Rightarrow> Inl m
      | None \<Rightarrow> Inr (case rows_of sql db of [] \<Rightarrow> None | r # rs \<Rightarrow> Some r))"

section \<open>The request handlers\<close>

text \<open>
  A handler runs against the store, under an environment that fixes what the program
  cannot decide: the clock read by \<^verbatim>\<open>new Date().toISOString()\<close> and, for the
  \<open>k\<close>-th driver call of the request, whether the store fails on its own.

  A handler returns the store it leaves, the response it sends and the driver calls it
  made, each with the error the callback received. The two statements of a composite
  handler run back to back: requests are not interleaved in this model.

  The \<open>json\<close> field of a response is the value handed to \<^verbatim>\<open>res.json\<close>; a response
  sent without \<^verbatim>\<open>res.status\<close> has status 200. Serialising an object drops the fields
  whose value is \<open>undefined\<close>. A request that does not reach a handler with an object as
  its body (malformed JSON, answered by the error middleware) is outside the model.
\<close>

record env =
  now :: string
  faults :: "string option list"

definition fault_at :: "env \<Rightarrow> nat \<Rightarrow> string option" where
  "fault_at e k = (if k < length (faults e) then faults e ! k else None)"

datatype payload = JObject obj | JArray "obj list"

record response =
  status :: nat
  json :: payload

datatype call = Run stmt | All query | Get query

type_synonym trace = "(call \<times> string option) list"

definition get_health :: "env \<Rightarrow> store \<Rightarrow> store \<times> response \<times> trace" where
  "get_health e db =
     (case db_get (fault_at e 0) db SELECT_1 of
        Inl err \<Rightarrow>
          (db,
           \<lparr>status = 500,
             json = JObject [(''status'', JStr ''error''),
                             (''message'', JStr ''Database connection failed'')]\<rparr>,
           [(Get SELECT_1, Some err)])
      | Inr row \<Rightarrow>
          (db,
           \<lparr>status = 200,
             json = JObject [(''status'', JStr ''healthy''), (''timestamp'', JStr (now e))]\<rparr>,
           [(Get SELECT_1, None)]))"

definition get_api_users :: "env \<Rightarrow> store \<Rightarrow> store \<times> response \<times> trace" where
  "get_api_users e db =
     (case db_all (fault_at e 0) db SELECT_users of
        Inl err \<Rightarrow>
          (db, \<lparr>status = 500, json = JObject [(''error'', JStr err)]\<rparr>,
           [(All SELECT_users, Some err)])
      | Inr rows \<Rightarrow>
          (db, \<lparr>status = 200, json = JArray rows\<rparr>, [(All SELECT_users, None)]))"

definition post_api_users :: "env \<Rightarrow> store \<Rightarrow> obj \<Rightarrow> store \<times> response \<times> trace" where
  "post_api_users e db body =
     (let username = js_get body ''username'';
          password = js_get body ''password'';
          email = js_get body ''email'';
          timestamp = JStr (now e);
          sql = INSERT_users username password email timestamp
      in case db_run (fault_at e 0) db sql of
           Inl err \<Rightarrow>
             (db, \<lparr>status = 500, json = JObject [(''error'', JStr err)]\<rparr>, [(Run sql, Some err)])
         | Inr (db1, ctx) \<Rightarrow>
             (db1,
              \<lparr>status = 200,
                json = JObject [(''userid'', JNum (lastID ctx)), (''username'', username),
                                (''email'', email), (''timestamp'', timestamp)]\<rparr>,
              [(Run sql, None)]))"

definition get_api_resettoken :: "env \<Rightarrow> store \<Rightarrow> obj \<Rightarrow> store \<times> response \<times> trace" where
  "get_api_resettoken e db query =
     (let token = js_get query ''token'';
          sql = SELECT_resetTokens token
      in case db_all (fault_at e 0) db sql of
           Inl err \<Rightarrow>
             (db, \<lparr>status = 500, json = JObject [(''error'', JStr err)]\<rparr>, [(All sql, Some err)])
         | Inr rows \<Rightarrow>
             (db, \<lparr>status = 200, json = JArray rows\<rparr>, [(All sql, None)]))"

definition post_api_resettoken :: "env \<Rightarrow> store \<Rightarrow> obj \<Rightarrow> store \<times> response \<times> trace" where
  "post_api_resettoken e db body =
     (let token = js_get body ''token'';
          expiresAt = js_get body ''expiresAt'';
          sql = INSERT_resetTokens token expiresAt
      in case db_run (fault_at e 0) db sql of
           Inl err \<Rightarrow>
             (db, \<lparr>status = 500, json = JObject [(''error'', JStr err)]\<rparr>, [(Run sql, Some err)])
         | Inr (db1, ctx) \<Rightarrow>
             (db1,
              \<lparr>status = 200,
                json = JObject [(''id'', JNum (lastID ctx)), (''token'', token),
                                (''expiresAt'', expiresAt)]\<rparr>,
              [(Run sql, None)]))"

definition put_api_users :: "env \<Rightarrow> store \<Rightarrow> obj \<Rightarrow> store \<times> response \<times> trace" where
  "put_api_users e db body =
     (let userid = js_get body ''userid'';
          tokenid = js_get body ''tokenid'';
          sql = UPDATE_users_resetTokenId tokenid userid
      in case db_run (fault_at e 0) db sql of
           Inl err \<Rightarrow>
             (db, \<lparr>status = 500, json = JObject [(''error'', JStr err)]\<rparr>, [(Run sql, Some err)])
         | Inr (db1, ctx) \<Rightarrow>
             (db1,
              \<lparr>status = 200, json = JObject [(''userid'', userid), (''tokenid'', tokenid)]\<rparr>,
              [(Run sql, None)]))"

definition put_api_password :: "env \<Rightarrow> store \<Rightarrow> obj \<Rightarrow> store \<times> response \<times> trace" where
  "put_api_password e db body =
     (let userid = js_get body ''userid'';
          password = js_get body ''password'';
          sql = UPDATE_users_password password userid
      in case db_run (fault_at e 0) db sql of
           Inl err \<Rightarrow>
             (db, \<lparr>status = 500, json = JObject [(''error'', JStr err)]\<rparr>, [(Run sql, Some err)])
         | Inr (db1, ctx) \<Rightarrow>
             (db1,
              \<lparr>status = 200, json = JObject [(''userid'', userid), (''password'', password)]\<rparr>,
              [(Run sql, None)]))"

definition post_api_transactions :: "env \<Rightarrow> store \<Rightarrow> obj \<Rightarrow> store \<times> response \<times> trace" where
  "post_api_transactions e db body =
     (let userid = js_get body ''userid'';
          isExpense = js_get body ''isExpense'';
          amount = js_get body ''amount'';
          categoryid = js_get body ''categoryid'';
          description = js_get body ''description'';
          timestamp = JStr (now e);
          sql1 = INSERT_transactions isExpense amount categoryid description timestamp
      in case db_run (fault_at e 0) db sql1 of
           Inl err \<Rightarrow>
             (db, \<lparr>status = 500, json = JObject [(''error'', JStr err)]\<rparr>, [(Run sql1, Some err)])
         | Inr (db1, ctx) \<Rightarrow>
             (let transactionid = JNum (lastID ctx);
                  sql2 = INSERT_user_transaction_mapping userid transactionid
              in case db_run (fault_at e 1) db1 sql2 of
                   Inl err \<Rightarrow>
                     (db1, \<lparr>status = 500, json = JObject [(''error'', JStr err)]\<rparr>,
                      [(Run sql1, None), (Run sql2, Some err)])
                 | Inr (db2, ctx2) \<Rightarrow>
                     (db2,
                      \<lparr>status = 200,
                        json = JObject [(''transactionid'', transactionid), (''userid'', userid),
                                        (''isExpense'', isExpense), (''amount'', amount),
                                        (''categoryid'', categoryid), (''description'', description),
                                        (''timestamp'', timestamp)]\<rparr>,
                      [(Run sql1, None), (Run sql2, None)])))"

text \<open>Route parameters are strings: \<^verbatim>\<open>req.params\<close> holds the path segment as text.\<close>

definition get_api_transactions :: "env \<Rightarrow> store \<Rightarrow> string \<Rightarrow> store \<times> response \<times> trace" where
  "get_api_transactions e db userId =
     (let sql = SELECT_transactions_of_user (JStr userId)
      in case db_all (fault_at e 0) db sql of
           Inl err \<Rightarrow>
             (db, \<lparr>status = 500, json = JObject [(''error'', JStr err)]\<rparr>, [(All sql, Some err)])
         | Inr rows \<Rightarrow>
             (db, \<lparr>status = 200, json = JArray rows\<rparr>, [(All sql, None)]))"

definition delete_api_transactions :: "env \<Rightarrow> store \<Rightarrow> string \<Rightarrow> store \<times> response \<times> trace" where
  "delete_api_transactions e db transactionid =
     (let sql1 = DELETE_transactions (JStr transactionid)
      in case db_run (fault_at e 0) db sql1 of
           Inl err \<Rightarrow>
             (db, \<lparr>status = 500, json = JObject [(''error'', JStr err)]\<rparr>, [(Run sql1, Some err)])
         | Inr (db1, ctx) \<Rightarrow>
             if changes ctx = 0
             then (db1, \<lparr>status = 404, json = JObject [(''error'', JStr ''Transaction not found'')]\<rparr>,
                   [(Run sql1, None)])
             else
               (let sql2 = DELETE_user_transaction_mapping (JStr transactionid)
                in case db_run (fault_at e 1) db1 sql2 of
                     Inl err \<Rightarrow>
                       (db1, \<lparr>status = 500, json = JObject [(''error'', JStr err)]\<rparr>,
                        [(Run sql1, None), (Run sql2, Some err)])
                   | Inr (db2, ctx2) \<Rightarrow>
                       (db2,
                        \<lparr>status = 200,
                          json = JObject [(''message'',
                                   JStr (''Transaction '' @ transactionid @ '' deleted successfully''))]\<rparr>,
                        [(Run sql1, None), (Run sql2, None)])))"

subsection \<open>Routing and request sequences\<close>

datatype request =
    GET_health
  | GET_api_users
  | POST_api_users obj
  | GET_api_resettoken obj
  | POST_api_resettoken obj
  | PUT_api_users obj
  | PUT_api_password obj
  | POST_api_transactions obj
  | GET_api_transactions string
  | DELETE_api_transactions string

fun handle :: "env \<Rightarrow> store \<Rightarrow> request \<Rightarrow> store \<times> response \<times> trace" where
  "handle e db GET_health = get_health e db"
| "handle e db GET_api_users = get_api_users e db"
| "handle e db (POST_api_users body) = post_api_users e db body"
| "handle e db (GET_api_resettoken query) = get_api_resettoken e db query"
| "handle e db (POST_api_resettoken body) = post_api_resettoken e db body"
| "handle e db (PUT_api_users body) = put_api_users e db body"
| "handle e db (PUT_api_password body) = put_api_password e db body"
| "handle e db (POST_api_transactions body) = post_api_transactions e db body"
| "handle e db (GET_api_transactions userId) = get_api_transactions e db userId"
| "handle e db (DELETE_api_transactions transactionid) = delete_api_transactions e db transactionid"

text \<open>
  A run of the server: the requests are served one after the other, each under its own
  environment, from the store the previous one left.
\<close>

fun serve :: "store \<Rightarrow> (env \<times> request) list \<Rightarrow> store \<times> response list" where
  "serve db [] = (db, [])"
| "serve db ((e, r) # rs) =
     (case handle e db r of
        (db1, resp, tr) \<Rightarrow> (case serve db1 rs of (db2, out) \<Rightarrow> (db2, resp # out)))"

section \<open>Predicates on stores and responses\<close>

text \<open>
  What the PRIMARY KEY and AUTOINCREMENT clauses maintain and what the handlers add to
  it: keys are unique and never above their sequence, and a mapping row carries the
  \<open>lastID\<close> of a transaction insert as its \<open>transactionid\<close>.
\<close>

definition store_ok :: "store \<Rightarrow> bool" where
  "store_ok db =
     (distinct (map u_userid (users db))
      \<and> list_all (\<lambda>u. u_userid u \<le> users_seq db) (users db)
      \<and> distinct (map t_transactionid (transactions db))
      \<and> list_all (\<lambda>t. t_transactionid t \<le> transactions_seq db) (transactions db)
      \<and> distinct (map rt_id (resetTokens db))
      \<and> list_all (\<lambda>r. rt_id r \<le> resetTokens_seq db) (resetTokens db)
      \<and> list_all (\<lambda>m. case utm_transactionid m of SInt k \<Rightarrow> k \<le> transactions_seq db | _ \<Rightarrow> False)
            (user_transaction_mapping db))"

text \<open>No stored row holds NULL outside \<open>users.resetTokenId\<close> and \<open>transactions.description\<close>.\<close>

definition no_nulls :: "store \<Rightarrow> bool" where
  "no_nulls db =
     (list_all (\<lambda>u. u_username u \<noteq> SNull \<and> u_password u \<noteq> SNull \<and> u_email u \<noteq> SNull
                    \<and> u_timestamp u \<noteq> SNull) (users db)
      \<and> list_all (\<lambda>t. t_isExpense t \<noteq> SNull \<and> t_amount t \<noteq> SNull \<and> t_categoryid t \<noteq> SNull
                    \<and> t_timestamp t \<noteq> SNull) (transactions db)
      \<and> list_all (\<lambda>m. utm_userid m \<noteq> SNull \<and> utm_transactionid m \<noteq> SNull)
            (user_transaction_mapping db)
      \<and> list_all (\<lambda>r. rt_token r \<noteq> SNull \<and> rt_expiresAt r \<noteq> SNull) (resetTokens db))"

text \<open>The surrogate key a successful create request reports in its response.\<close>

datatype key = Userid | Transactionid | ResetTokenId

definition reported :: "response \<Rightarrow> string \<Rightarrow> int option" where
  "reported resp k =
     (if status resp = 200
      then (case json resp of
              JObject ob \<Rightarrow> (case js_get ob k of JNum n \<Rightarrow> Some n | _ \<Rightarrow> None)
            | JArray rows \<Rightarrow> None)
      else None)"

fun assigned :: "request \<Rightarrow> response \<Rightarrow> (key \<times> int) option" where
  "assigned (POST_api_users body) resp = map_option (Pair Userid) (reported resp ''userid'')"
| "assigned (POST_api_transactions body) resp =
     map_option (Pair Transactionid) (reported resp ''transactionid'')"
| "assigned (POST_api_resettoken body) resp = map_option (Pair ResetTokenId) (reported resp ''id'')"
| "assigned r resp = None"

fun key_seq :: "key \<Rightarrow> store \<Rightarrow> int" where
  "key_seq Userid db = users_seq db"
| "key_seq Transactionid db = transactions_seq db"
| "key_seq ResetTokenId db = resetTokens_seq db"

fun key_ids :: "key \<Rightarrow> store \<Rightarrow> int list" where
  "key_ids Userid db = map u_userid (users db)"
| "key_ids Transactionid db = map t_transactionid (transactions db)"
| "key_ids ResetTokenId db = map rt_id (resetTokens db)"

section \<open>A concrete run\<close>

text \<open>
  The inputs of the scenario of the specification's section 8, and variants of its
  transaction body with one field left out. They are the inputs at which the theorems
  below are instantiated.
\<close>

definition quiet :: env where
  "quiet = \<lparr>now = ''2024-05-01T12:00:00.000Z'', faults = []\<rparr>"

definition coffee :: obj where
  "coffee =
     [(''userid'', JNum 1), (''isExpense'', JBool True), (''amount'', JNum 500),
      (''categoryid'', JNum 2), (''description'', JStr ''coffee'')]"

definition coffee_without_amount :: obj where
  "coffee_without_amount =
     [(''userid'', JNum 1), (''isExpense'', JBool True), (''categoryid'', JNum 2),
      (''description'', JStr ''coffee'')]"

definition coffee_without_userid :: obj where
  "coffee_without_userid =
     [(''isExpense'', JBool True), (''amount'', JNum 500), (''categoryid'', JNum 2),
      (''description'', JStr ''coffee'')]"

definition coffee_row :: transaction_row where
  "coffee_row =
     \<lparr>t_transactionid = 1, t_isExpense = SInt 1, t_amount = SInt 500, t_categoryid = SInt 2,
      t_description = SText ''coffee'', t_timestamp = SText ''2024-05-01T12:00:00.000Z''\<rparr>"

text \<open>The store after the transaction insert alone: \<open>coffee_row\<close> has no mapping row.\<close>

definition orphan_store :: store where
  "orphan_store = init_store\<lparr>transactions := [coffee_row], transactions_seq := 1\<rparr>"

text \<open>The store after the whole request: \<open>coffee_row\<close> is owned by user 1.\<close>

definition coffee_store :: store where
  "coffee_store =
     init_store\<lparr>transactions := [coffee_row], transactions_seq := 1,
       user_transaction_mapping := [\<lparr>utm_userid = SInt 1, utm_transactionid = SInt 1\<rparr>]\<rparr>"

text \<open>An environment in which the store fails on the second driver call of a request.\<close>

definition second_call_fails :: env where
  "second_call_fails =
     \<lparr>now = ''2024-05-01T12:00:00.000Z'', faults = [None, Some ''SQLITE_IOERR: disk I/O error'']\<rparr>"

text \<open>An environment in which the store fails on the first driver call of a request.\<close>

definition first_call_fails :: env where
  "first_call_fails =
     \<lparr>now = ''2024-05-01T12:00:00.000Z'', faults = [Some ''SQLITE_CANTOPEN: unable to open database file'']\<rparr>"

text \<open>The signup body of the scenario and the store it leaves.\<close>

definition alice :: obj where
  "alice = [(''username'', JStr ''a''), (''password'', JStr ''p''), (''email'', JStr ''a@x.com'')]"

definition alice_row :: user_row where
  "alice_row =
     \<lparr>u_userid = 1, u_username = SText ''a'', u_password = SText ''p'', u_email = SText ''a@x.com'',
      u_timestamp = SText ''2024-05-01T12:00:00.000Z'', u_resetTokenId = SNull\<rparr>"

definition alice_store :: store where
  "alice_store = init_store\<lparr>users := [alice_row], users_seq := 1\<rparr>"

text \<open>Further inputs: a transaction without description, an update that names no user, and a
  run that creates a transaction, deletes it and creates another.\<close>

definition coffee_without_description :: obj where
  "coffee_without_description =
     [(''userid'', JNum 1), (''isExpense'', JBool True), (''amount'', JNum 500),
      (''categoryid'', JNum 2)]"

definition update_of_nobody :: obj where
  "update_of_nobody = [(''userid'', JNum 7), (''tokenid'', JNum 3), (''password'', JStr ''q'')]"

definition create_delete_create :: "(env \<times> request) list" where
  "create_delete_create =
     [(quiet, POST_api_transactions coffee),
      (quiet, DELETE_api_transactions ''1''),
      (quiet, POST_api_transactions coffee)]"

text \<open>Updates that name the user of the signup: one without a password, one complete.\<close>

definition password_missing :: obj where
  "password_missing = [(''userid'', JNum 1)]"

definition update_of_alice :: obj where
  "update_of_alice = [(''userid'', JNum 1), (''tokenid'', JStr ''3''), (''password'', JStr ''q'')]"

section \<open>Facts about the store\<close>

lemma fold_max_bounds: "(a::int) \<le> fold max ids a \<and> (\<forall>i\<in>set ids. i \<le> fold max ids a)"
proof (induction ids arbitrary: a)
  case Nil
  show ?case by simp
next
  case (Cons x xs)
  have "max x a \<le> fold max xs (max x a)"
    using Cons [of "max x a"] by simp
  with Cons [of "max x a"] show ?case by auto
qed

lemma new_rowid_Inr: "new_rowid seq ids = Inr r \<Longrightarrow> seq < r \<and> (\<forall>i\<in>set ids. i < r)"
  using fold_max_bounds [of seq ids]
  by (fastforce simp: new_rowid_def Let_def split: if_splits)

lemma stored_simps:
  "stored users_table ''username'' v = affinity TEXT v"
  "stored users_table ''password'' v = affinity TEXT v"
  "stored users_table ''email'' v = affinity TEXT v"
  "stored users_table ''timestamp'' v = affinity TEXT v"
  "stored users_table ''resetTokenId'' v = affinity TEXT v"
  "stored transactions_table ''isExpense'' v = affinity BOOLEAN v"
  "stored transactions_table ''amount'' v = affinity INTEGER v"
  "stored transactions_table ''categoryid'' v = affinity INTEGER v"
  "stored transactions_table ''description'' v = affinity TEXT v"
  "stored transactions_table ''timestamp'' v = affinity TEXT v"
  "stored user_transaction_mapping_table ''userid'' v = affinity INTEGER v"
  "stored user_transaction_mapping_table ''transactionid'' v = affinity INTEGER v"
  "stored resetTokens_table ''token'' v = affinity TEXT v"
  "stored resetTokens_table ''expiresAt'' v = affinity TEXT v"
  by (simp_all add: stored_def users_table_def transactions_table_def
      user_transaction_mapping_table_def resetTokens_table_def)

lemma violates_simps:
  "violates users_table ''username'' v = (v = SNull)"
  "violates users_table ''password'' v = (v = SNull)"
  "violates users_table ''email'' v = (v = SNull)"
  "violates users_table ''timestamp'' v = (v = SNull)"
  "violates users_table ''resetTokenId'' v = False"
  "violates transactions_table ''isExpense'' v = (v = SNull)"
  "violates transactions_table ''amount'' v = (v = SNull)"
  "violates transactions_table ''categoryid'' v = (v = SNull)"
  "violates transactions_table ''description'' v = False"
  "violates transactions_table ''timestamp'' v = (v = SNull)"
  "violates user_transaction_mapping_table ''userid'' v = (v = SNull)"
  "violates user_transaction_mapping_table ''transactionid'' v = (v = SNull)"
  "violates resetTokens_table ''token'' v = (v = SNull)"
  "violates resetTokens_table ''expiresAt'' v = (v = SNull)"
  by (simp_all add: violates_def users_table_def transactions_table_def
      user_transaction_mapping_table_def resetTokens_table_def)

lemma affinity_SNull [simp]: "affinity ty v = SNull \<longleftrightarrow> v = SNull"
  by (cases "(ty, v)" rule: affinity.cases) (auto split: option.splits)

lemma sql_eq_SInt [simp]: "sql_eq (SInt a) v \<longleftrightarrow> v = SInt a"
  by (cases v) auto

lemma sql_eq_SInt2 [simp]: "sql_eq v (SInt a) \<longleftrightarrow> v = SInt a"
  by (cases v) auto

subsection \<open>Decimal text reads back as the number it prints\<close>

lemma digits_val_append:
  "digits_val (xs @ ys) acc = (case digits_val xs acc of None \<Rightarrow> None | Some a \<Rightarrow> digits_val ys a)"
  by (induction xs arbitrary: acc) (auto split: option.splits)

lemma digit_of_char_of: "d < 10 \<Longrightarrow> digit_of (char_of (48 + d)) = Some d"
  by (simp add: digit_of_def Let_def)

lemma digits_val_dec_of_nat: "digits_val (dec_of_nat n) 0 = Some n"
proof (induction n rule: dec_of_nat.induct)
  case (1 n)
  show ?case
  proof (cases "n < 10")
    case True
    then show ?thesis
      by (subst dec_of_nat.simps) (simp add: digit_of_char_of)
  next
    case False
    with 1 have "digits_val (dec_of_nat (n div 10)) 0 = Some (n div 10)"
      by simp
    with False show ?thesis
      by (subst dec_of_nat.simps) (simp add: digits_val_append digit_of_char_of)
  qed
qed

lemma dec_of_nat_head: "\<exists>c cs. dec_of_nat n = c # cs \<and> c \<noteq> CHR ''-''"
proof (induction n rule: dec_of_nat.induct)
  case (1 n)
  show ?case
  proof (cases "n < 10")
    case True
    have "char_of (48 + n) \<noteq> CHR ''-''"
    proof
      assume "char_of (48 + n) = CHR ''-''"
      then have "digit_of (char_of (48 + n)) = digit_of CHR ''-''" by simp
      with True show False by (simp add: digit_of_char_of) (simp add: digit_of_def)
    qed
    with True show ?thesis
      by (subst dec_of_nat.simps) simp
  next
    case False
    with 1 obtain c cs where "dec_of_nat (n div 10) = c # cs" "c \<noteq> CHR ''-''"
      by blast
    with False show ?thesis
      by (subst dec_of_nat.simps) simp
  qed
qed

lemma num_of_dec_of_int: "num_of (dec_of_int i) = Some i"
proof (cases "i < 0")
  case True
  obtain c cs where "dec_of_nat (nat (- i)) = c # cs"
    using dec_of_nat_head by blast
  with True show ?thesis
    using digits_val_dec_of_nat [of "nat (- i)"]
    by (simp add: num_of_def dec_of_int_def)
next
  case False
  obtain c cs where "dec_of_nat (nat i) = c # cs" "c \<noteq> CHR ''-''"
    using dec_of_nat_head by blast
  with False show ?thesis
    using digits_val_dec_of_nat [of "nat i"]
    by (simp add: num_of_def dec_of_int_def)
qed

lemma where_eq_decimal: "where_eq INTEGER (SInt n) (SText (dec_of_int n))"
  by (simp add: where_eq_def num_of_dec_of_int)

subsection \<open>The effect of each statement\<close>

lemma exec_INSERT_transactions:
  assumes "exec (INSERT_transactions p1 p2 p3 p4 p5) db = Inr (db1, ctx)"
  shows "db1 = db\<lparr>transactions := transactions db @
                  [\<lparr>t_transactionid = lastID ctx,
                    t_isExpense = affinity BOOLEAN (bind_param p1),
                    t_amount = affinity INTEGER (bind_param p2),
                    t_categoryid = affinity INTEGER (bind_param p3),
                    t_description = affinity TEXT (bind_param p4),
                    t_timestamp = affinity TEXT (bind_param p5)\<rparr>],
                 transactions_seq := lastID ctx\<rparr>"
    and "transactions_seq db < lastID ctx"
    and "\<forall>t\<in>set (transactions db). t_transactionid t < lastID ctx"
    and "bind_param p1 \<noteq> SNull \<and> bind_param p2 \<noteq> SNull \<and> bind_param p3 \<noteq> SNull \<and> bind_param p5 \<noteq> SNull"
  using assms
  by (auto simp: stored_simps violates_simps split: sum.splits option.splits if_splits
      dest!: new_rowid_Inr)

lemma exec_INSERT_user_transaction_mapping:
  assumes "exec (INSERT_user_transaction_mapping p1 p2) db = Inr (db1, ctx)"
  shows "db1 = db\<lparr>user_transaction_mapping := user_transaction_mapping db @
                  [\<lparr>utm_userid = affinity INTEGER (bind_param p1),
                    utm_transactionid = affinity INTEGER (bind_param p2)\<rparr>]\<rparr>"
    and "bind_param p1 \<noteq> SNull \<and> bind_param p2 \<noteq> SNull"
  using assms
  by (auto simp: stored_simps violates_simps split: sum.splits option.splits if_splits)

lemma exec_DELETE_transactions:
  "exec (DELETE_transactions p) db =
     Inr (db\<lparr>transactions :=
               filter (\<lambda>t. \<not> where_eq INTEGER (SInt (t_transactionid t)) (bind_param p)) (transactions db)\<rparr>,
          \<lparr>lastID = 0,
            changes = length (filter (\<lambda>t. where_eq INTEGER (SInt (t_transactionid t)) (bind_param p))
                                (transactions db))\<rparr>)"
  by (simp add: Let_def)

lemma exec_DELETE_user_transaction_mapping:
  "exec (DELETE_user_transaction_mapping p) db =
     Inr (db\<lparr>user_transaction_mapping :=
               filter (\<lambda>m. \<not> where_eq INTEGER (utm_transactionid m) (bind_param p))
                 (user_transaction_mapping db)\<rparr>,
          \<lparr>lastID = 0,
            changes = length (filter (\<lambda>m. where_eq INTEGER (utm_transactionid m) (bind_param p))
                                (user_transaction_mapping db))\<rparr>)"
  by (simp add: Let_def)

lemma db_run_Inr: "db_run f db sql = Inr r \<Longrightarrow> f = None \<and> exec sql db = Inr r"
  by (simp add: db_run_def split: option.splits)

declare exec.simps [simp del]

subsection \<open>Keys select at most one row\<close>

lemma filter_none: "length (filter P xs) = 0 \<Longrightarrow> filter (\<lambda>x. \<not> P x) xs = xs"
  by (induction xs) (auto split: if_splits)

lemma distinct_filter_key: "distinct (map f xs) \<Longrightarrow> length (filter (\<lambda>x. f x = k) xs) \<le> 1"
proof (induction xs)
  case Nil
  show ?case by simp
next
  case (Cons x xs)
  show ?case
  proof (cases "f x = k")
    case True
    from Cons.prems have "f x \<notin> f ` set xs"
      by simp
    with True have "\<forall>y\<in>set xs. f y \<noteq> k"
      by (metis image_eqI)
    then have "filter (\<lambda>y. f y = k) xs = []"
      by (simp add: filter_empty_conv)
    with True show ?thesis by simp
  next
    case False
    with Cons show ?thesis by simp
  qed
qed

lemma hit_transactions_at_most_one:
  assumes "distinct (map t_transactionid ts)"
  shows "length (filter (\<lambda>t. where_eq INTEGER (SInt (t_transactionid t)) v) ts) \<le> 1"
proof (cases "affinity INTEGER v")
  case (SInt k)
  then have "filter (\<lambda>t. where_eq INTEGER (SInt (t_transactionid t)) v) ts
             = filter (\<lambda>t. t_transactionid t = k) ts"
    by (auto simp: where_eq_def intro: filter_cong)
  with distinct_filter_key [OF assms, of k] show ?thesis
    by simp
next
  case SNull
  then show ?thesis by (simp add: where_eq_def)
next
  case (SText s)
  then show ?thesis by (simp add: where_eq_def)
qed

subsection \<open>The join of transactions and mapping rows\<close>

lemma js_get_transactionid [simp]: "js_get (transaction_obj t) ''transactionid'' = JNum (t_transactionid t)"
  by (simp add: js_get_def transaction_obj_def)

lemma js_of_sql_inj: "js_of_sql v = js_of_sql w \<Longrightarrow> v = w"
  by (cases v; cases w) auto

lemma transaction_obj_inj: "transaction_obj t = transaction_obj t' \<Longrightarrow> t = t'"
  by (cases t; cases t') (auto simp: transaction_obj_def dest: js_of_sql_inj)

lemma rows_of_transactions_set:
  "set (rows_of (SELECT_transactions_of_user p) db) =
     {transaction_obj t | t m. t \<in> set (transactions db) \<and> m \<in> set (user_transaction_mapping db)
        \<and> utm_transactionid m = SInt (t_transactionid t)
        \<and> where_eq INTEGER (utm_userid m) (bind_param p)}"
  by auto

lemma count_list_concat_map:
  "count_list (concat (map f xs)) y = (\<Sum>x\<leftarrow>xs. count_list (f x) y)"
  by (induction xs) auto

lemma count_list_replicate_like:
  "count_list (map (\<lambda>m. a) ms) y = (if a = y then length ms else 0)"
  by (induction ms) auto

lemma sum_list_single:
  assumes "distinct (map f xs)" "t \<in> set xs"
  shows "(\<Sum>x\<leftarrow>xs. if f x = f t then g x else (0::nat)) = g t"
  using assms
proof (induction xs)
  case Nil
  then show ?case by simp
next
  case (Cons x xs)
  show ?case
  proof (cases "x = t")
    case True
    from Cons.prems True have "\<forall>y\<in>set xs. f y \<noteq> f t"
      by (metis distinct.simps(2) image_eqI list.simps(9) set_map)
    then have "(\<Sum>x\<leftarrow>xs. if f x = f t then g x else 0) = 0"
      by (induction xs) auto
    with True show ?thesis by simp
  next
    case False
    with Cons.prems have t: "t \<in> set xs" by simp
    with Cons.prems have "f x \<noteq> f t"
      by (metis distinct.simps(2) image_eqI list.simps(9) set_map)
    with Cons t show ?thesis by simp
  qed
qed

lemma rows_of_transactions_count:
  assumes d: "distinct (map t_transactionid (transactions db))" and t: "t \<in> set (transactions db)"
  shows "count_list (rows_of (SELECT_transactions_of_user p) db) (transaction_obj t) =
         length (filter (\<lambda>m. utm_transactionid m = SInt (t_transactionid t)
                              \<and> where_eq INTEGER (utm_userid m) (bind_param p))
                   (user_transaction_mapping db))"
proof -
  let ?n = "\<lambda>t. length (filter (\<lambda>m. utm_transactionid m = SInt (t_transactionid t)
                              \<and> where_eq INTEGER (utm_userid m) (bind_param p))
                   (user_transaction_mapping db))"
  have eq: "\<And>x. x \<in> set (transactions db) \<Longrightarrow>
      (transaction_obj x = transaction_obj t) = (t_transactionid x = t_transactionid t)"
  proof -
    fix x assume x: "x \<in> set (transactions db)"
    show "(transaction_obj x = transaction_obj t) = (t_transactionid x = t_transactionid t)"
    proof
      assume "transaction_obj x = transaction_obj t"
      then show "t_transactionid x = t_transactionid t"
        by (simp add: transaction_obj_def)
    next
      assume "t_transactionid x = t_transactionid t"
      with d x t have "x = t"
        by (meson distinct_map inj_onD)
      then show "transaction_obj x = transaction_obj t" by simp
    qed
  qed
  have "count_list (rows_of (SELECT_transactions_of_user p) db) (transaction_obj t)
        = (\<Sum>x\<leftarrow>transactions db. if transaction_obj x = transaction_obj t then ?n x else 0)"
    by (simp add: count_list_concat_map count_list_replicate_like)
  also have "\<dots> = (\<Sum>x\<leftarrow>transactions db. if t_transactionid x = t_transactionid t then ?n x else 0)"
    by (rule arg_cong [where f = sum_list], rule map_cong) (simp_all add: eq)
  also have "\<dots> = ?n t"
    using d t by (rule sum_list_single)
  finally show ?thesis .
qed

subsection \<open>Handlers in closed form\<close>

lemma get_api_transactions_result:
  "get_api_transactions e db userId =
     (case fault_at e 0 of
        Some err \<Rightarrow>
          (db, \<lparr>status = 500, json = JObject [(''error'', JStr err)]\<rparr>,
           [(All (SELECT_transactions_of_user (JStr userId)), Some err)])
      | None \<Rightarrow>
          (db, \<lparr>status = 200, json = JArray (rows_of (SELECT_transactions_of_user (JStr userId)) db)\<rparr>,
           [(All (SELECT_transactions_of_user (JStr userId)), None)]))"
  by (simp add: get_api_transactions_def db_all_def Let_def split: option.splits)

lemma reported_head:
  "reported \<lparr>status = 200, json = JObject ((k, JNum n) # rest)\<rparr> k = Some n"
  by (simp add: reported_def js_get_def)

lemma post_api_transactions_success:
  assumes "post_api_transactions e db body = (db', resp, tr)" and "status resp = 200"
  shows "\<exists>db1 ctx ctx2.
           exec (INSERT_transactions (js_get body ''isExpense'') (js_get body ''amount'')
               (js_get body ''categoryid'') (js_get body ''description'') (JStr (now e))) db = Inr (db1, ctx)
         \<and> exec (INSERT_user_transaction_mapping (js_get body ''userid'') (JNum (lastID ctx))) db1 = Inr (db', ctx2)
         \<and> resp = \<lparr>status = 200,
                    json = JObject [(''transactionid'', JNum (lastID ctx)), (''userid'', js_get body ''userid''),
                                    (''isExpense'', js_get body ''isExpense''), (''amount'', js_get body ''amount''),
                                    (''categoryid'', js_get body ''categoryid''),
                                    (''description'', js_get body ''description''),
                                    (''timestamp'', JStr (now e))]\<rparr>"
  using assms
  by (auto simp: post_api_transactions_def Let_def split: sum.splits dest!: db_run_Inr)

subsection \<open>More statement effects\<close>

lemma exec_INSERT_users:
  assumes "exec (INSERT_users p1 p2 p3 p4) db = Inr (db1, ctx)"
  shows "db1 = db\<lparr>users := users db @
                  [\<lparr>u_userid = lastID ctx,
                    u_username = affinity TEXT (bind_param p1),
                    u_password = affinity TEXT (bind_param p2),
                    u_email = affinity TEXT (bind_param p3),
                    u_timestamp = affinity TEXT (bind_param p4),
                    u_resetTokenId = SNull\<rparr>],
                 users_seq := lastID ctx\<rparr>"
    and "users_seq db < lastID ctx"
    and "\<forall>u\<in>set (users db). u_userid u < lastID ctx"
    and "bind_param p1 \<noteq> SNull \<and> bind_param p2 \<noteq> SNull \<and> bind_param p3 \<noteq> SNull \<and> bind_param p4 \<noteq> SNull"
  using assms
  by (auto simp: exec.simps stored_simps violates_simps split: sum.splits option.splits if_splits
      dest!: new_rowid_Inr)

lemma exec_INSERT_resetTokens:
  assumes "exec (INSERT_resetTokens p1 p2) db = Inr (db1, ctx)"
  shows "db1 = db\<lparr>resetTokens := resetTokens db @
                  [\<lparr>rt_id = lastID ctx,
                    rt_token = affinity TEXT (bind_param p1),
                    rt_expiresAt = affinity TEXT (bind_param p2)\<rparr>],
                 resetTokens_seq := lastID ctx\<rparr>"
    and "resetTokens_seq db < lastID ctx"
    and "\<forall>r\<in>set (resetTokens db). rt_id r < lastID ctx"
    and "bind_param p1 \<noteq> SNull \<and> bind_param p2 \<noteq> SNull"
  using assms
  by (auto simp: exec.simps stored_simps violates_simps split: sum.splits option.splits if_splits
      dest!: new_rowid_Inr)

lemma exec_UPDATE_users_resetTokenId:
  "exec (UPDATE_users_resetTokenId p1 p2) db =
     Inr (db\<lparr>users :=
              map (\<lambda>u. if where_eq INTEGER (SInt (u_userid u)) (bind_param p2)
                       then u\<lparr>u_resetTokenId := affinity TEXT (bind_param p1)\<rparr> else u) (users db)\<rparr>,
          \<lparr>lastID = 0,
            changes = length (filter (\<lambda>u. where_eq INTEGER (SInt (u_userid u)) (bind_param p2)) (users db))\<rparr>)"
  by (simp add: exec.simps Let_def stored_simps violates_simps)

lemma exec_UPDATE_users_password:
  "exec (UPDATE_users_password p1 p2) db =
     (if filter (\<lambda>u. where_eq INTEGER (SInt (u_userid u)) (bind_param p2)) (users db) \<noteq> []
         \<and> bind_param p1 = SNull
      then Inl ''SQLITE_CONSTRAINT: NOT NULL constraint failed: users.password''
      else Inr (db\<lparr>users :=
              map (\<lambda>u. if where_eq INTEGER (SInt (u_userid u)) (bind_param p2)
                       then u\<lparr>u_password := affinity TEXT (bind_param p1)\<rparr> else u) (users db)\<rparr>,
          \<lparr>lastID = 0,
            changes = length (filter (\<lambda>u. where_eq INTEGER (SInt (u_userid u)) (bind_param p2)) (users db))\<rparr>))"
  by (simp add: exec.simps Let_def stored_simps violates_simps constraint_failed_def)

lemma map_no_hit: "filter P xs = [] \<Longrightarrow> map (\<lambda>x. if P x then f x else x) xs = xs"
  by (induction xs) (auto split: if_splits)

subsection \<open>What every statement preserves\<close>

lemma exec_seq_mono:
  assumes "exec sql db = Inr (db1, ctx)"
  shows "key_seq k db \<le> key_seq k db1"
proof (cases sql)
  case (INSERT_users p1 p2 p3 p4)
  with assms exec_INSERT_users [of p1 p2 p3 p4 db db1 ctx] show ?thesis
    by (cases k) auto
next
  case (INSERT_resetTokens p1 p2)
  with assms exec_INSERT_resetTokens [of p1 p2 db db1 ctx] show ?thesis
    by (cases k) auto
next
  case (UPDATE_users_resetTokenId p1 p2)
  with assms show ?thesis
    by (cases k) (auto simp: exec_UPDATE_users_resetTokenId)
next
  case (UPDATE_users_password p1 p2)
  with assms show ?thesis
    by (cases k) (auto simp: exec_UPDATE_users_password split: if_splits)
next
  case (INSERT_transactions p1 p2 p3 p4 p5)
  with assms exec_INSERT_transactions [of p1 p2 p3 p4 p5 db db1 ctx] show ?thesis
    by (cases k) auto
next
  case (INSERT_user_transaction_mapping p1 p2)
  with assms exec_INSERT_user_transaction_mapping [of p1 p2 db db1 ctx] show ?thesis
    by (cases k) auto
next
  case (DELETE_transactions p1)
  with assms show ?thesis
    by (cases k) (auto simp: exec_DELETE_transactions)
next
  case (DELETE_user_transaction_mapping p1)
  with assms show ?thesis
    by (cases k) (auto simp: exec_DELETE_user_transaction_mapping)
qed

lemma exec_no_nulls:
  assumes "exec sql db = Inr (db1, ctx)" and "no_nulls db"
  shows "no_nulls db1"
proof (cases sql)
  case (INSERT_users p1 p2 p3 p4)
  with assms exec_INSERT_users [of p1 p2 p3 p4 db db1 ctx] show ?thesis
    by (auto simp: no_nulls_def)
next
  case (INSERT_resetTokens p1 p2)
  with assms exec_INSERT_resetTokens [of p1 p2 db db1 ctx] show ?thesis
    by (auto simp: no_nulls_def)
next
  case (UPDATE_users_resetTokenId p1 p2)
  with assms show ?thesis
    by (auto simp: exec_UPDATE_users_resetTokenId no_nulls_def list_all_iff)
next
  case (UPDATE_users_password p1 p2)
  with assms show ?thesis
    by (auto simp: exec_UPDATE_users_password no_nulls_def list_all_iff filter_empty_conv split: if_splits)
next
  case (INSERT_transactions p1 p2 p3 p4 p5)
  with assms exec_INSERT_transactions [of p1 p2 p3 p4 p5 db db1 ctx] show ?thesis
    by (auto simp: no_nulls_def)
next
  case (INSERT_user_transaction_mapping p1 p2)
  with assms exec_INSERT_user_transaction_mapping [of p1 p2 db db1 ctx] show ?thesis
    by (auto simp: no_nulls_def)
next
  case (DELETE_transactions p1)
  with assms show ?thesis
    by (auto simp: exec_DELETE_transactions no_nulls_def list_all_iff)
next
  case (DELETE_user_transaction_mapping p1)
  with assms show ?thesis
    by (auto simp: exec_DELETE_user_transaction_mapping no_nulls_def list_all_iff)
qed

lemma keyed_update:
  fixes key :: "'a \<Rightarrow> int"
  assumes "\<And>u. key (f u) = key u"
  shows "distinct (map key (map (\<lambda>u. if P u then f u else u) us)) = distinct (map key us)"
    and "list_all (\<lambda>u. key u \<le> n) (map (\<lambda>u. if P u then f u else u) us) = list_all (\<lambda>u. key u \<le> n) us"
proof -
  have "map key (map (\<lambda>u. if P u then f u else u) us) = map key us"
    using assms by (induction us) auto
  then show "distinct (map key (map (\<lambda>u. if P u then f u else u) us)) = distinct (map key us)"
    by (simp only:)
  show "list_all (\<lambda>u. key u \<le> n) (map (\<lambda>u. if P u then f u else u) us) = list_all (\<lambda>u. key u \<le> n) us"
    using assms by (induction us) auto
qed

lemma exec_store_ok:
  assumes ex: "exec sql db = Inr (db1, ctx)" and ok: "store_ok db"
    and ref: "\<And>p1 p2. sql = INSERT_user_transaction_mapping p1 p2 \<Longrightarrow> \<exists>k. p2 = JNum k \<and> k \<le> transactions_seq db"
  shows "store_ok db1"
proof (cases sql)
  case (INSERT_users p1 p2 p3 p4)
  note f = exec_INSERT_users [OF ex [unfolded INSERT_users]]
  from f(3) have fresh: "lastID ctx \<notin> set (map u_userid (users db))"
    by auto
  from f(3) have le: "\<forall>u\<in>set (users db). u_userid u \<le> lastID ctx"
    by (auto intro: less_imp_le)
  from ok fresh le show ?thesis
    unfolding f(1) by (simp add: store_ok_def list_all_iff cong: sqlval.case_cong)
next
  case (INSERT_resetTokens p1 p2)
  note f = exec_INSERT_resetTokens [OF ex [unfolded INSERT_resetTokens]]
  from f(3) have fresh: "lastID ctx \<notin> set (map rt_id (resetTokens db))"
    by auto
  from f(3) have le: "\<forall>r\<in>set (resetTokens db). rt_id r \<le> lastID ctx"
    by (auto intro: less_imp_le)
  from ok fresh le show ?thesis
    unfolding f(1) by (simp add: store_ok_def list_all_iff cong: sqlval.case_cong)
next
  case (UPDATE_users_resetTokenId p1 p2)
  define us where "us = map (\<lambda>u. if where_eq INTEGER (SInt (u_userid u)) (bind_param p2)
                       then u\<lparr>u_resetTokenId := affinity TEXT (bind_param p1)\<rparr> else u) (users db)"
  from ex have db1: "db1 = db\<lparr>users := us\<rparr>"
    unfolding UPDATE_users_resetTokenId exec_UPDATE_users_resetTokenId us_def by simp
  have "distinct (map u_userid us) = distinct (map u_userid (users db))"
    unfolding us_def by (rule keyed_update) simp
  moreover have "list_all (\<lambda>u. u_userid u \<le> users_seq db) us
                 = list_all (\<lambda>u. u_userid u \<le> users_seq db) (users db)"
    unfolding us_def by (rule keyed_update) simp
  ultimately have "distinct (map u_userid us)" and "list_all (\<lambda>u. u_userid u \<le> users_seq db) us"
    using ok by (simp_all add: store_ok_def)
  with ok show ?thesis
    unfolding db1 by (simp add: store_ok_def cong: sqlval.case_cong)
next
  case (UPDATE_users_password p1 p2)
  define us where "us = map (\<lambda>u. if where_eq INTEGER (SInt (u_userid u)) (bind_param p2)
                       then u\<lparr>u_password := affinity TEXT (bind_param p1)\<rparr> else u) (users db)"
  from ex have db1: "db1 = db\<lparr>users := us\<rparr>"
    unfolding UPDATE_users_password exec_UPDATE_users_password us_def by (simp split: if_splits)
  have "distinct (map u_userid us) = distinct (map u_userid (users db))"
    unfolding us_def by (rule keyed_update) simp
  moreover have "list_all (\<lambda>u. u_userid u \<le> users_seq db) us
                 = list_all (\<lambda>u. u_userid u \<le> users_seq db) (users db)"
    unfolding us_def by (rule keyed_update) simp
  ultimately have "distinct (map u_userid us)" and "list_all (\<lambda>u. u_userid u \<le> users_seq db) us"
    using ok by (simp_all add: store_ok_def)
  with ok show ?thesis
    unfolding db1 by (simp add: store_ok_def cong: sqlval.case_cong)
next
  case (INSERT_transactions p1 p2 p3 p4 p5)
  note f = exec_INSERT_transactions [OF ex [unfolded INSERT_transactions]]
  from f(3) have fresh: "lastID ctx \<notin> set (map t_transactionid (transactions db))"
    by auto
  from f(3) have le: "\<forall>t\<in>set (transactions db). t_transactionid t \<le> lastID ctx"
    by (auto intro: less_imp_le)
  from ok f(2) have m: "\<forall>m\<in>set (user_transaction_mapping db).
      (case utm_transactionid m of SInt k \<Rightarrow> k \<le> lastID ctx | _ \<Rightarrow> False)"
    by (auto simp: store_ok_def list_all_iff split: sqlval.splits)
  from ok fresh le m show ?thesis
    unfolding f(1) by (simp add: store_ok_def list_all_iff cong: sqlval.case_cong)
next
  case (INSERT_user_transaction_mapping p1 p2)
  with ref obtain k where k: "p2 = JNum k" "k \<le> transactions_seq db"
    by blast
  note f = exec_INSERT_user_transaction_mapping [OF ex [unfolded INSERT_user_transaction_mapping]]
  from ok k show ?thesis
    unfolding f(1) by (simp add: store_ok_def cong: sqlval.case_cong)
next
  case (DELETE_transactions p1)
  from ex have db1: "db1 = db\<lparr>transactions :=
               filter (\<lambda>t. \<not> where_eq INTEGER (SInt (t_transactionid t)) (bind_param p1)) (transactions db)\<rparr>"
    unfolding DELETE_transactions exec_DELETE_transactions by simp
  from ok show ?thesis
    unfolding db1 by (simp add: store_ok_def list_all_iff distinct_map_filter cong: sqlval.case_cong)
next
  case (DELETE_user_transaction_mapping p1)
  from ex have db1: "db1 = db\<lparr>user_transaction_mapping :=
               filter (\<lambda>m. \<not> where_eq INTEGER (utm_transactionid m) (bind_param p1))
                 (user_transaction_mapping db)\<rparr>"
    unfolding DELETE_user_transaction_mapping exec_DELETE_user_transaction_mapping by simp
  from ok show ?thesis
    unfolding db1 by (simp add: store_ok_def list_all_iff cong: sqlval.case_cong)
qed

subsection \<open>What every request preserves\<close>

lemma handle_store:
  assumes "handle e db r = (db', resp, tr)"
  shows "db' = db \<or> (\<exists>sql ctx. exec sql db = Inr (db', ctx))
         \<or> (\<exists>sql1 db1 ctx1 sql2 ctx2. exec sql1 db = Inr (db1, ctx1) \<and> exec sql2 db1 = Inr (db', ctx2))"
proof (cases r)
  case GET_health
  with assms show ?thesis by (auto simp: get_health_def split: sum.splits)
next
  case GET_api_users
  with assms show ?thesis by (auto simp: get_api_users_def split: sum.splits)
next
  case (POST_api_users body)
  with assms show ?thesis
    by (auto simp: post_api_users_def Let_def split: sum.splits dest!: db_run_Inr)
next
  case (GET_api_resettoken q)
  with assms show ?thesis by (auto simp: get_api_resettoken_def Let_def split: sum.splits)
next
  case (POST_api_resettoken body)
  with assms show ?thesis
    by (auto simp: post_api_resettoken_def Let_def split: sum.splits dest!: db_run_Inr)
next
  case (PUT_api_users body)
  with assms show ?thesis
    by (auto simp: put_api_users_def Let_def split: sum.splits dest!: db_run_Inr)
next
  case (PUT_api_password body)
  with assms show ?thesis
    by (auto simp: put_api_password_def Let_def split: sum.splits dest!: db_run_Inr)
next
  case (POST_api_transactions body)
  with assms show ?thesis
    by (auto simp: post_api_transactions_def Let_def split: sum.splits dest!: db_run_Inr) blast+
next
  case (GET_api_transactions u)
  with assms show ?thesis by (auto simp: get_api_transactions_result split: option.splits)
next
  case (DELETE_api_transactions p)
  with assms show ?thesis
    by (auto simp: delete_api_transactions_def Let_def split: sum.splits if_splits dest!: db_run_Inr)
      blast+
qed

lemma handle_no_nulls: "handle e db r = (db', resp, tr) \<Longrightarrow> no_nulls db \<Longrightarrow> no_nulls db'"
  by (auto dest!: handle_store dest: exec_no_nulls)

lemma handle_seq_mono: "handle e db r = (db', resp, tr) \<Longrightarrow> key_seq k db \<le> key_seq k db'"
  by (auto dest!: handle_store dest: exec_seq_mono order_trans)

lemma serve_no_nulls: "no_nulls db \<Longrightarrow> no_nulls (fst (serve db rs))"
proof (induction rs arbitrary: db)
  case Nil
  then show ?case by simp
next
  case (Cons er rs)
  obtain e r where er: "er = (e, r)" by (cases er)
  obtain db1 resp tr where h: "handle e db r = (db1, resp, tr)" by (cases "handle e db r")
  from h Cons.prems have "no_nulls db1" by (rule handle_no_nulls)
  then have "no_nulls (fst (serve db1 rs))" by (rule Cons.IH)
  with er h show ?case by (cases "serve db1 rs") simp
qed

lemma handle_store_ok:
  assumes h: "handle e db r = (db', resp, tr)" and ok: "store_ok db"
  shows "store_ok db'"
proof (cases r)
  case (POST_api_transactions body)
  let ?sql1 = "INSERT_transactions (js_get body ''isExpense'') (js_get body ''amount'')
               (js_get body ''categoryid'') (js_get body ''description'') (JStr (now e))"
  from h POST_api_transactions
  have "db' = db
      \<or> (\<exists>ctx. exec ?sql1 db = Inr (db', ctx))
      \<or> (\<exists>db1 ctx ctx2. exec ?sql1 db = Inr (db1, ctx)
           \<and> exec (INSERT_user_transaction_mapping (js_get body ''userid'') (JNum (lastID ctx))) db1 = Inr (db', ctx2))"
    by (auto simp: post_api_transactions_def Let_def split: sum.splits dest!: db_run_Inr)
  then show ?thesis
  proof (elim disjE exE conjE)
    assume "db' = db"
    with ok show ?thesis by simp
  next
    fix ctx assume "exec ?sql1 db = Inr (db', ctx)"
    from this ok show ?thesis by (rule exec_store_ok) simp
  next
    fix db1 ctx ctx2
    assume ex: "exec ?sql1 db = Inr (db1, ctx)"
      and ex2: "exec (INSERT_user_transaction_mapping (js_get body ''userid'') (JNum (lastID ctx))) db1 = Inr (db', ctx2)"
    from ex ok have ok1: "store_ok db1"
      by (rule exec_store_ok) simp
    from exec_INSERT_transactions(1) [OF ex] have seq: "transactions_seq db1 = lastID ctx"
      by simp
    from ex2 ok1 show ?thesis
      by (rule exec_store_ok) (simp add: seq)
  qed
next
  case (DELETE_api_transactions p)
  from h DELETE_api_transactions
  have "db' = db
      \<or> (\<exists>ctx. exec (DELETE_transactions (JStr p)) db = Inr (db', ctx))
      \<or> (\<exists>db1 ctx ctx2. exec (DELETE_transactions (JStr p)) db = Inr (db1, ctx)
           \<and> exec (DELETE_user_transaction_mapping (JStr p)) db1 = Inr (db', ctx2))"
    by (auto simp: delete_api_transactions_def Let_def split: sum.splits if_splits dest!: db_run_Inr)
  then show ?thesis
  proof (elim disjE exE conjE)
    assume "db' = db"
    with ok show ?thesis by simp
  next
    fix ctx assume "exec (DELETE_transactions (JStr p)) db = Inr (db', ctx)"
    from this ok show ?thesis by (rule exec_store_ok) simp
  next
    fix db1 ctx ctx2
    assume ex: "exec (DELETE_transactions (JStr p)) db = Inr (db1, ctx)"
      and ex2: "exec (DELETE_user_transaction_mapping (JStr p)) db1 = Inr (db', ctx2)"
    from ex ok have ok1: "store_ok db1"
      by (rule exec_store_ok) simp
    from ex2 ok1 show ?thesis
      by (rule exec_store_ok) simp
  qed
next
  case (POST_api_users body)
  with h have "db' = db \<or> (\<exists>ctx. exec (INSERT_users (js_get body ''username'') (js_get body ''password'') (js_get body ''email'') (JStr (now e))) db = Inr (db', ctx))"
    by (auto simp: post_api_users_def Let_def split: sum.splits dest!: db_run_Inr)
  then show ?thesis
  proof (elim disjE exE)
    assume "db' = db"
    with ok show ?thesis by simp
  next
    fix ctx assume "exec (INSERT_users (js_get body ''username'') (js_get body ''password'') (js_get body ''email'') (JStr (now e))) db = Inr (db', ctx)"
    from this ok show ?thesis by (rule exec_store_ok) simp
  qed
next
  case (POST_api_resettoken body)
  with h have "db' = db \<or> (\<exists>ctx. exec (INSERT_resetTokens (js_get body ''token'') (js_get body ''expiresAt'')) db = Inr (db', ctx))"
    by (auto simp: post_api_resettoken_def Let_def split: sum.splits dest!: db_run_Inr)
  then show ?thesis
  proof (elim disjE exE)
    assume "db' = db"
    with ok show ?thesis by simp
  next
    fix ctx assume "exec (INSERT_resetTokens (js_get body ''token'') (js_get body ''expiresAt'')) db = Inr (db', ctx)"
    from this ok show ?thesis by (rule exec_store_ok) simp
  qed
next
  case (PUT_api_users body)
  with h have "db' = db \<or> (\<exists>ctx. exec (UPDATE_users_resetTokenId (js_get body ''tokenid'') (js_get body ''userid'')) db = Inr (db', ctx))"
    by (auto simp: put_api_users_def Let_def split: sum.splits dest!: db_run_Inr)
  then show ?thesis
  proof (elim disjE exE)
    assume "db' = db"
    with ok show ?thesis by simp
  next
    fix ctx assume "exec (UPDATE_users_resetTokenId (js_get body ''tokenid'') (js_get body ''userid'')) db = Inr (db', ctx)"
    from this ok show ?thesis by (rule exec_store_ok) simp
  qed
next
  case (PUT_api_password body)
  with h have "db' = db \<or> (\<exists>ctx. exec (UPDATE_users_password (js_get body ''password'') (js_get body ''userid'')) db = Inr (db', ctx))"
    by (auto simp: put_api_password_def Let_def split: sum.splits dest!: db_run_Inr)
  then show ?thesis
  proof (elim disjE exE)
    assume "db' = db"
    with ok show ?thesis by simp
  next
    fix ctx assume "exec (UPDATE_users_password (js_get body ''password'') (js_get body ''userid'')) db = Inr (db', ctx)"
    from this ok show ?thesis by (rule exec_store_ok) simp
  qed
next
  case GET_health
  with h ok show ?thesis by (auto simp: get_health_def split: sum.splits)
next
  case GET_api_users
  with h ok show ?thesis by (auto simp: get_api_users_def split: sum.splits)
next
  case (GET_api_resettoken q)
  with h ok show ?thesis by (auto simp: get_api_resettoken_def Let_def split: sum.splits)
next
  case (GET_api_transactions u)
  with h ok show ?thesis by (auto simp: get_api_transactions_result split: option.splits)
qed

lemma serve_store_ok: "store_ok db \<Longrightarrow> store_ok (fst (serve db rs))"
proof (induction rs arbitrary: db)
  case Nil
  then show ?case by simp
next
  case (Cons er rs)
  obtain e r where er: "er = (e, r)" by (cases er)
  obtain db1 resp tr where h: "handle e db r = (db1, resp, tr)" by (cases "handle e db r")
  from h Cons.prems have "store_ok db1" by (rule handle_store_ok)
  then have "store_ok (fst (serve db1 rs))" by (rule Cons.IH)
  with er h show ?case by (cases "serve db1 rs") simp
qed

lemma store_ok_reachable: "store_ok (fst (serve init_store rs))"
  by (rule serve_store_ok) (simp add: store_ok_def init_store_def)

subsection \<open>Keys reported by create requests\<close>

lemma post_api_users_success:
  assumes "post_api_users e db body = (db', resp, tr)" and "status resp = 200"
  shows "\<exists>ctx.
           exec (INSERT_users (js_get body ''username'') (js_get body ''password'')
                   (js_get body ''email'') (JStr (now e))) db = Inr (db', ctx)
         \<and> resp = \<lparr>status = 200,
                    json = JObject [(''userid'', JNum (lastID ctx)), (''username'', js_get body ''username''),
                                    (''email'', js_get body ''email''), (''timestamp'', JStr (now e))]\<rparr>"
  using assms
  by (auto simp: post_api_users_def Let_def split: sum.splits dest!: db_run_Inr)

lemma post_api_resettoken_success:
  assumes "post_api_resettoken e db body = (db', resp, tr)" and "status resp = 200"
  shows "\<exists>ctx.
           exec (INSERT_resetTokens (js_get body ''token'') (js_get body ''expiresAt'')) db = Inr (db', ctx)
         \<and> resp = \<lparr>status = 200,
                    json = JObject [(''id'', JNum (lastID ctx)), (''token'', js_get body ''token''),
                                    (''expiresAt'', js_get body ''expiresAt'')]\<rparr>"
  using assms
  by (auto simp: post_api_resettoken_def Let_def split: sum.splits dest!: db_run_Inr)

lemma reported_status: "reported resp k = Some n \<Longrightarrow> status resp = 200"
  by (simp add: reported_def split: if_splits)

lemma handle_assigned:
  assumes h: "handle e db r = (db', resp, tr)" and a: "assigned r resp = Some (k, a)"
  shows "key_seq k db < a \<and> a \<le> key_seq k db'"
proof (cases r)
  case (POST_api_users body)
  with a have k: "k = Userid" and rep: "reported resp ''userid'' = Some a"
    by auto
  from h POST_api_users have p: "post_api_users e db body = (db', resp, tr)"
    by simp
  from post_api_users_success [OF p reported_status [OF rep]]
  obtain ctx where ex: "exec (INSERT_users (js_get body ''username'') (js_get body ''password'')
                   (js_get body ''email'') (JStr (now e))) db = Inr (db', ctx)"
    and resp: "resp = \<lparr>status = 200,
                    json = JObject [(''userid'', JNum (lastID ctx)), (''username'', js_get body ''username''),
                                    (''email'', js_get body ''email''), (''timestamp'', JStr (now e))]\<rparr>"
    by auto
  from rep resp have "a = lastID ctx"
    by (simp add: reported_head)
  with k exec_INSERT_users(1,2) [OF ex] show ?thesis
    by simp
next
  case (POST_api_resettoken body)
  with a have k: "k = ResetTokenId" and rep: "reported resp ''id'' = Some a"
    by auto
  from h POST_api_resettoken have p: "post_api_resettoken e db body = (db', resp, tr)"
    by simp
  from post_api_resettoken_success [OF p reported_status [OF rep]]
  obtain ctx where ex: "exec (INSERT_resetTokens (js_get body ''token'') (js_get body ''expiresAt'')) db = Inr (db', ctx)"
    and resp: "resp = \<lparr>status = 200,
                    json = JObject [(''id'', JNum (lastID ctx)), (''token'', js_get body ''token''),
                                    (''expiresAt'', js_get body ''expiresAt'')]\<rparr>"
    by auto
  from rep resp have "a = lastID ctx"
    by (simp add: reported_head)
  with k exec_INSERT_resetTokens(1,2) [OF ex] show ?thesis
    by simp
next
  case (POST_api_transactions body)
  with a have k: "k = Transactionid" and rep: "reported resp ''transactionid'' = Some a"
    by auto
  from h POST_api_transactions have p: "post_api_transactions e db body = (db', resp, tr)"
    by simp
  from post_api_transactions_success [OF p reported_status [OF rep]]
  obtain db1 ctx ctx2 where ex: "exec (INSERT_transactions (js_get body ''isExpense'') (js_get body ''amount'')
               (js_get body ''categoryid'') (js_get body ''description'') (JStr (now e))) db = Inr (db1, ctx)"
    and ex2: "exec (INSERT_user_transaction_mapping (js_get body ''userid'') (JNum (lastID ctx))) db1 = Inr (db', ctx2)"
    and resp: "reported resp ''transactionid'' = Some (lastID ctx)"
    by (auto simp: reported_head)
  from rep resp have "a = lastID ctx"
    by simp
  with k exec_INSERT_transactions(1,2) [OF ex] exec_INSERT_user_transaction_mapping(1) [OF ex2]
  show ?thesis
    by simp
qed (use a in simp_all)

lemma serve_Cons:
  "serve db ((e, r) # rs) = (db', out) \<Longrightarrow>
     \<exists>db1 resp tr out'. handle e db r = (db1, resp, tr) \<and> serve db1 rs = (db', out') \<and> out = resp # out'"
  by (auto split: prod.splits)

lemma serve_assigned_lower:
  "serve db rs = (db', out) \<Longrightarrow> j < length rs \<Longrightarrow> assigned (snd (rs ! j)) (out ! j) = Some (k, b)
     \<Longrightarrow> key_seq k db < b"
proof (induction rs arbitrary: db out j)
  case Nil
  then show ?case by simp
next
  case (Cons er rs)
  obtain e r where er: "er = (e, r)" by (cases er)
  from Cons.prems(1) have "serve db ((e, r) # rs) = (db', out)"
    unfolding er .
  from serve_Cons [OF this] obtain db1 resp tr out' where
    h: "handle e db r = (db1, resp, tr)" and s: "serve db1 rs = (db', out')" and out: "out = resp # out'"
    by blast
  show ?case
  proof (cases j)
    case 0
    with Cons.prems er out handle_assigned [OF h] show ?thesis by simp
  next
    case (Suc j')
    with Cons.prems er out have "key_seq k db1 < b"
      by (intro Cons.IH [OF s, of j']) simp_all
    with handle_seq_mono [OF h, of k] show ?thesis by simp
  qed
qed

lemma serve_assigned_pair:
  "serve db rs = (db', out) \<Longrightarrow> i < j \<Longrightarrow> j < length rs
     \<Longrightarrow> assigned (snd (rs ! i)) (out ! i) = Some (k, a)
     \<Longrightarrow> assigned (snd (rs ! j)) (out ! j) = Some (k, b) \<Longrightarrow> a < b"
proof (induction rs arbitrary: db out i j)
  case Nil
  then show ?case by simp
next
  case (Cons er rs)
  obtain e r where er: "er = (e, r)" by (cases er)
  from Cons.prems(1) have "serve db ((e, r) # rs) = (db', out)"
    unfolding er .
  from serve_Cons [OF this] obtain db1 resp tr out' where
    h: "handle e db r = (db1, resp, tr)" and s: "serve db1 rs = (db', out')" and out: "out = resp # out'"
    by blast
  from Cons.prems(2) obtain j' where j: "j = Suc j'" by (cases j) auto
  show ?case
  proof (cases i)
    case 0
    with Cons.prems er out handle_assigned [OF h, of k a] have "a \<le> key_seq k db1" by simp
    moreover from Cons.prems er out j have "key_seq k db1 < b"
      by (intro serve_assigned_lower [OF s, of j']) simp_all
    ultimately show ?thesis by simp
  next
    case (Suc i')
    with Cons.prems er out j show ?thesis
      by (intro Cons.IH [OF s, of i' j']) simp_all
  qed
qed

subsection \<open>Runs split at any point\<close>

lemma serve_length: "length (snd (serve db rs)) = length rs"
proof (induction rs arbitrary: db)
  case Nil
  show ?case by simp
next
  case (Cons er rs)
  obtain e r where er: "er = (e, r)" by (cases er)
  obtain db1 resp tr where h: "handle e db r = (db1, resp, tr)" by (cases "handle e db r")
  from Cons.IH [of db1] er h show ?case
    by (cases "serve db1 rs") simp
qed

lemma serve_append:
  "serve db (xs @ ys) =
     (fst (serve (fst (serve db xs)) ys), snd (serve db xs) @ snd (serve (fst (serve db xs)) ys))"
proof (induction xs arbitrary: db)
  case Nil
  show ?case by simp
next
  case (Cons er xs)
  obtain e r where er: "er = (e, r)" by (cases er)
  obtain db1 resp tr where h: "handle e db r = (db1, resp, tr)" by (cases "handle e db r")
  from Cons.IH [of db1] er h show ?case
    by (simp split: prod.splits)
qed

lemma store_ok_key_ids: "store_ok db \<Longrightarrow> list_all (\<lambda>x. x \<le> key_seq k db) (key_ids k db)"
  by (cases k) (auto simp: store_ok_def list_all_iff)

lemma serve_assigned_after_prefix:
  assumes run: "serve db rs = (db', out)"
    and j: "j < length rs" and i: "i \<le> j"
    and new: "assigned (snd (rs ! j)) (out ! j) = Some (k, b)"
  shows "key_seq k (fst (serve db (take i rs))) < b"
proof -
  let ?xs = "take i rs" and ?ys = "drop i rs"
  let ?mid = "fst (serve db ?xs)"
  have len: "length (snd (serve db ?xs)) = i"
    using i j by (simp add: serve_length)
  from run have out: "out = snd (serve db ?xs) @ snd (serve ?mid ?ys)"
    using serve_append [of db ?xs ?ys] by simp
  have rest: "serve ?mid ?ys = (fst (serve ?mid ?ys), snd (serve ?mid ?ys))"
    by simp
  from i j have at: "rs ! j = ?ys ! (j - i)"
    by simp
  from out len i have at': "out ! j = snd (serve ?mid ?ys) ! (j - i)"
    by (simp add: nth_append)
  from i j have "j - i < length ?ys"
    by simp
  from serve_assigned_lower [OF rest this] new at at' show ?thesis
    by simp
qed

lemmas eval_defs = init_store_def store_ok_def db_run_def db_all_def db_get_def exec.simps
  rows_of.simps fault_at_def js_get_def new_rowid_def max_rowid_def stored_simps violates_simps
  constraint_failed_def where_eq_def num_of_def digit_of_def Let_def

section \<open>The composite create protocol\<close>

text \<open>
  C1. \<^verbatim>\<open>POST /api/transactions\<close> runs two statements. If the insert into
  \<open>transactions\<close> fails, the store is left as it was, the response is 500 with the
  store's message, and the insert into \<open>user_transaction_mapping\<close> is not among the calls
  made. If the first insert succeeds and the second fails, the response is 500 with
  the second message, the new transaction row stays (its key is \<open>lastID\<close>, a key the
  table did not hold), the mapping table is what it was, and no mapping row refers to
  the new key: the row is an orphan and nothing is rolled back.
\<close>

theorem create_transaction_two_step:
  assumes ok: "store_ok db"
    and run: "post_api_transactions e db body = (db', resp, tr)"
  shows "(db_run (fault_at e 0) db
            (INSERT_transactions (js_get body ''isExpense'') (js_get body ''amount'')
               (js_get body ''categoryid'') (js_get body ''description'') (JStr (now e))) = Inl err
          \<longrightarrow> db' = db
              \<and> resp = \<lparr>status = 500, json = JObject [(''error'', JStr err)]\<rparr>
              \<and> tr =
                  [(Run (INSERT_transactions (js_get body ''isExpense'') (js_get body ''amount'')
                     (js_get body ''categoryid'') (js_get body ''description'') (JStr (now e))), Some err)])
       \<and> (db_run (fault_at e 0) db
            (INSERT_transactions (js_get body ''isExpense'') (js_get body ''amount'')
               (js_get body ''categoryid'') (js_get body ''description'') (JStr (now e))) = Inr (db1, ctx)
          \<and> db_run (fault_at e 1) db1
              (INSERT_user_transaction_mapping (js_get body ''userid'') (JNum (lastID ctx))) = Inl err2
          \<longrightarrow> db' = db1
              \<and> resp = \<lparr>status = 500, json = JObject [(''error'', JStr err2)]\<rparr>
              \<and> map t_transactionid (transactions db') = map t_transactionid (transactions db) @ [lastID ctx]
              \<and> lastID ctx \<notin> set (map t_transactionid (transactions db))
              \<and> user_transaction_mapping db' = user_transaction_mapping db
              \<and> filter (\<lambda>m. sql_eq (SInt (lastID ctx)) (utm_transactionid m))
                   (user_transaction_mapping db') = [])"
proof (intro conjI impI)
  let ?sql1 = "INSERT_transactions (js_get body ''isExpense'') (js_get body ''amount'')
               (js_get body ''categoryid'') (js_get body ''description'') (JStr (now e))"
  {
    assume f: "db_run (fault_at e 0) db ?sql1 = Inl err"
    from run f show "db' = db"
      and "resp = \<lparr>status = 500, json = JObject [(''error'', JStr err)]\<rparr>"
      and "tr = [(Run ?sql1, Some err)]"
      by (auto simp add: post_api_transactions_def Let_def)
  }
  {
    assume s: "db_run (fault_at e 0) db ?sql1 = Inr (db1, ctx)
      \<and> db_run (fault_at e 1) db1
              (INSERT_user_transaction_mapping (js_get body ''userid'') (JNum (lastID ctx))) = Inl err2"
    from run s show a: "db' = db1"
      and "resp = \<lparr>status = 500, json = JObject [(''error'', JStr err2)]\<rparr>"
      by (auto simp add: post_api_transactions_def Let_def)
    from s have ex: "exec ?sql1 db = Inr (db1, ctx)"
      by (blast dest: db_run_Inr)
    note fx = exec_INSERT_transactions [OF ex]
    from a fx(1) show "map t_transactionid (transactions db') = map t_transactionid (transactions db) @ [lastID ctx]"
      by simp
    from fx(3) show "lastID ctx \<notin> set (map t_transactionid (transactions db))"
      by auto
    from a fx(1) show m: "user_transaction_mapping db' = user_transaction_mapping db"
      by simp
    from ok fx(2) have "\<forall>m\<in>set (user_transaction_mapping db). utm_transactionid m \<noteq> SInt (lastID ctx)"
      by (auto simp: store_ok_def list_all_iff split: sqlval.splits)
    with m show "filter (\<lambda>m. sql_eq (SInt (lastID ctx)) (utm_transactionid m))
                   (user_transaction_mapping db') = []"
      by (simp add: filter_empty_conv)
  }
qed

theorem create_transaction_two_step_witness:
  "store_ok init_store
   \<and> post_api_transactions quiet init_store coffee_without_amount =
       (init_store,
        \<lparr>status = 500,
          json = JObject [(''error'', JStr ''SQLITE_CONSTRAINT: NOT NULL constraint failed: transactions.amount'')]\<rparr>,
        [(Run (INSERT_transactions (JBool True) JUndefined (JNum 2) (JStr ''coffee'')
                 (JStr ''2024-05-01T12:00:00.000Z'')),
          Some ''SQLITE_CONSTRAINT: NOT NULL constraint failed: transactions.amount'')])
   \<and> post_api_transactions quiet init_store coffee_without_userid =
       (orphan_store,
        \<lparr>status = 500,
          json = JObject [(''error'',
                    JStr ''SQLITE_CONSTRAINT: NOT NULL constraint failed: user_transaction_mapping.userid'')]\<rparr>,
        [(Run (INSERT_transactions (JBool True) (JNum 500) (JNum 2) (JStr ''coffee'')
                 (JStr ''2024-05-01T12:00:00.000Z'')), None),
         (Run (INSERT_user_transaction_mapping JUndefined (JNum 1)),
          Some ''SQLITE_CONSTRAINT: NOT NULL constraint failed: user_transaction_mapping.userid'')])
   \<and> map t_transactionid (transactions orphan_store) = [1]
   \<and> user_transaction_mapping orphan_store = []"
proof -
  have ok: "store_ok init_store"
    by (simp add: init_store_def store_ok_def)
  have r1: "post_api_transactions quiet init_store coffee_without_amount =
       (init_store,
        \<lparr>status = 500,
          json = JObject [(''error'', JStr ''SQLITE_CONSTRAINT: NOT NULL constraint failed: transactions.amount'')]\<rparr>,
        [(Run (INSERT_transactions (JBool True) JUndefined (JNum 2) (JStr ''coffee'')
                 (JStr ''2024-05-01T12:00:00.000Z'')),
          Some ''SQLITE_CONSTRAINT: NOT NULL constraint failed: transactions.amount'')])"
    by (simp add: eval_defs quiet_def coffee_without_amount_def coffee_without_userid_def
        coffee_row_def orphan_store_def post_api_transactions_def)
  have r2: "post_api_transactions quiet init_store coffee_without_userid =
       (orphan_store,
        \<lparr>status = 500,
          json = JObject [(''error'',
                    JStr ''SQLITE_CONSTRAINT: NOT NULL constraint failed: user_transaction_mapping.userid'')]\<rparr>,
        [(Run (INSERT_transactions (JBool True) (JNum 500) (JNum 2) (JStr ''coffee'')
                 (JStr ''2024-05-01T12:00:00.000Z'')), None),
         (Run (INSERT_user_transaction_mapping JUndefined (JNum 1)),
          Some ''SQLITE_CONSTRAINT: NOT NULL constraint failed: user_transaction_mapping.userid'')])"
    by (simp add: eval_defs quiet_def coffee_without_amount_def coffee_without_userid_def
        coffee_row_def orphan_store_def post_api_transactions_def)
  have s1: "db_run (fault_at quiet 0) init_store
            (INSERT_transactions (js_get coffee_without_userid ''isExpense'')
               (js_get coffee_without_userid ''amount'') (js_get coffee_without_userid ''categoryid'')
               (js_get coffee_without_userid ''description'') (JStr (now quiet)))
          = Inr (orphan_store, \<lparr>lastID = 1, changes = 1\<rparr>)"
    by (simp add: eval_defs quiet_def coffee_without_amount_def coffee_without_userid_def
        coffee_row_def orphan_store_def post_api_transactions_def)
  have s2: "db_run (fault_at quiet 1) orphan_store
              (INSERT_user_transaction_mapping (js_get coffee_without_userid ''userid'')
                 (JNum (lastID \<lparr>lastID = 1, changes = 1\<rparr>)))
          = Inl ''SQLITE_CONSTRAINT: NOT NULL constraint failed: user_transaction_mapping.userid''"
    by (simp add: eval_defs quiet_def coffee_without_amount_def coffee_without_userid_def
        coffee_row_def orphan_store_def post_api_transactions_def)
  note c = create_transaction_two_step [OF ok r2, THEN conjunct2, THEN mp, OF conjI [OF s1 s2]]
  from c have "map t_transactionid (transactions orphan_store) = map t_transactionid (transactions init_store) @ [1]"
    and "user_transaction_mapping orphan_store = user_transaction_mapping init_store"
    by simp_all
  then have "map t_transactionid (transactions orphan_store) = [1]"
    and "user_transaction_mapping orphan_store = []"
    by (simp_all add: init_store_def orphan_store_def)
  with ok r1 r2 show ?thesis by blast
qed

section \<open>The composite delete protocol\<close>

text \<open>
  C2. \<^verbatim>\<open>DELETE /api/transactions/:transactionid\<close> runs up to two statements. If the
  delete from \<open>transactions\<close> changes no row, the response is 404, the store (and so the
  mapping table) is what it was, and that delete is the only call made. The delete from
  \<open>user_transaction_mapping\<close> is among the calls only if the first delete succeeded and
  changed exactly one row. If that second delete fails, the response is 500 with its
  message although the transaction row is gone; the mapping table is what it was.
\<close>

theorem delete_transaction_two_step:
  assumes ok: "store_ok db"
    and run: "delete_api_transactions e db transactionid = (db', resp, tr)"
  shows "(db_run (fault_at e 0) db (DELETE_transactions (JStr transactionid)) = Inr (db1, ctx)
          \<and> changes ctx = 0
          \<longrightarrow> resp = \<lparr>status = 404, json = JObject [(''error'', JStr ''Transaction not found'')]\<rparr>
              \<and> db' = db
              \<and> user_transaction_mapping db' = user_transaction_mapping db
              \<and> tr = [(Run (DELETE_transactions (JStr transactionid)), None)])
       \<and> ((Run (DELETE_user_transaction_mapping p), out) \<in> set tr
          \<longrightarrow> (\<exists>db2 ctx2. db_run (fault_at e 0) db (DELETE_transactions (JStr transactionid)) = Inr (db2, ctx2)
                 \<and> changes ctx2 = 1
                 \<and> length (transactions db) = length (transactions db2) + 1))
       \<and> (db_run (fault_at e 0) db (DELETE_transactions (JStr transactionid)) = Inr (db1, ctx)
          \<and> changes ctx \<noteq> 0
          \<and> db_run (fault_at e 1) db1 (DELETE_user_transaction_mapping (JStr transactionid)) = Inl err
          \<longrightarrow> resp = \<lparr>status = 500, json = JObject [(''error'', JStr err)]\<rparr>
              \<and> db' = db1
              \<and> filter (\<lambda>t. where_eq INTEGER (SInt (t_transactionid t)) (SText transactionid))
                   (transactions db') = []
              \<and> user_transaction_mapping db' = user_transaction_mapping db)"
proof (intro conjI impI)
  let ?hit = "\<lambda>t. where_eq INTEGER (SInt (t_transactionid t)) (SText transactionid)"
  let ?sql1 = "DELETE_transactions (JStr transactionid)"
  from ok have "distinct (map t_transactionid (transactions db))"
    by (simp add: store_ok_def)
  then have one: "length (filter ?hit (transactions db)) \<le> 1"
    by (rule hit_transactions_at_most_one)
  {
    assume a: "db_run (fault_at e 0) db ?sql1 = Inr (db1, ctx) \<and> changes ctx = 0"
    then have ex: "exec ?sql1 db = Inr (db1, ctx)"
      by (blast dest: db_run_Inr)
    with a have "length (filter ?hit (transactions db)) = 0"
      by (auto simp: exec_DELETE_transactions)
    then have "filter (\<lambda>t. \<not> ?hit t) (transactions db) = transactions db"
      by (rule filter_none)
    with ex have same: "db1 = db"
      by (simp add: exec_DELETE_transactions)
    from run a same
    show "resp = \<lparr>status = 404, json = JObject [(''error'', JStr ''Transaction not found'')]\<rparr>"
      and "db' = db"
      and "user_transaction_mapping db' = user_transaction_mapping db"
      and "tr = [(Run ?sql1, None)]"
      by (auto simp: delete_api_transactions_def Let_def)
  }
  {
    assume m: "(Run (DELETE_user_transaction_mapping p), out) \<in> set tr"
    with run obtain db2 ctx2 where s: "db_run (fault_at e 0) db ?sql1 = Inr (db2, ctx2)"
      and nz: "changes ctx2 \<noteq> 0"
      by (auto simp: delete_api_transactions_def Let_def split: sum.splits if_splits)
    from s have ex: "exec ?sql1 db = Inr (db2, ctx2)"
      by (blast dest: db_run_Inr)
    then have ch: "changes ctx2 = length (filter ?hit (transactions db))"
      and tx: "transactions db2 = filter (\<lambda>t. \<not> ?hit t) (transactions db)"
      by (auto simp: exec_DELETE_transactions)
    from ch nz one have c1: "changes ctx2 = 1"
      by linarith
    have "length (filter ?hit (transactions db)) + length (filter (\<lambda>t. \<not> ?hit t) (transactions db))
          = length (transactions db)"
      by (rule sum_length_filter_compl)
    with ch c1 tx have "length (transactions db) = length (transactions db2) + 1"
      by simp
    with s c1
    show "\<exists>db2 ctx2. db_run (fault_at e 0) db ?sql1 = Inr (db2, ctx2) \<and> changes ctx2 = 1
            \<and> length (transactions db) = length (transactions db2) + 1"
      by blast
  }
  {
    assume a: "db_run (fault_at e 0) db ?sql1 = Inr (db1, ctx) \<and> changes ctx \<noteq> 0
          \<and> db_run (fault_at e 1) db1 (DELETE_user_transaction_mapping (JStr transactionid)) = Inl err"
    with run show "resp = \<lparr>status = 500, json = JObject [(''error'', JStr err)]\<rparr>"
      and d: "db' = db1"
      by (auto simp: delete_api_transactions_def Let_def)
    from a have ex: "exec ?sql1 db = Inr (db1, ctx)"
      by (blast dest: db_run_Inr)
    with d show "filter ?hit (transactions db') = []"
      and "user_transaction_mapping db' = user_transaction_mapping db"
      by (auto simp: exec_DELETE_transactions filter_empty_conv)
  }
qed

theorem delete_transaction_two_step_witness:
  "store_ok init_store \<and> store_ok coffee_store
   \<and> delete_api_transactions quiet init_store ''1'' =
       (init_store,
        \<lparr>status = 404, json = JObject [(''error'', JStr ''Transaction not found'')]\<rparr>,
        [(Run (DELETE_transactions (JStr ''1'')), None)])
   \<and> delete_api_transactions second_call_fails coffee_store ''1'' =
       (coffee_store\<lparr>transactions := []\<rparr>,
        \<lparr>status = 500, json = JObject [(''error'', JStr ''SQLITE_IOERR: disk I/O error'')]\<rparr>,
        [(Run (DELETE_transactions (JStr ''1'')), None),
         (Run (DELETE_user_transaction_mapping (JStr ''1'')), Some ''SQLITE_IOERR: disk I/O error'')])
   \<and> db_run (fault_at second_call_fails 0) coffee_store (DELETE_transactions (JStr ''1'')) =
       Inr (coffee_store\<lparr>transactions := []\<rparr>, \<lparr>lastID = 0, changes = 1\<rparr>)
   \<and> user_transaction_mapping (coffee_store\<lparr>transactions := []\<rparr>) = user_transaction_mapping coffee_store"
proof -
  have ok1: "store_ok init_store"
    by (simp add: eval_defs quiet_def coffee_row_def coffee_store_def second_call_fails_def)
  have ok2: "store_ok coffee_store"
    by (simp add: eval_defs quiet_def coffee_row_def coffee_store_def second_call_fails_def)
  have r1: "delete_api_transactions quiet init_store ''1'' =
       (init_store,
        \<lparr>status = 404, json = JObject [(''error'', JStr ''Transaction not found'')]\<rparr>,
        [(Run (DELETE_transactions (JStr ''1'')), None)])"
    by (simp add: eval_defs quiet_def coffee_row_def coffee_store_def second_call_fails_def
        delete_api_transactions_def)
  have s1: "db_run (fault_at quiet 0) init_store (DELETE_transactions (JStr ''1'')) =
       Inr (init_store, \<lparr>lastID = 0, changes = 0\<rparr>)"
    by (simp add: eval_defs quiet_def coffee_row_def coffee_store_def second_call_fails_def)
  have r2: "delete_api_transactions second_call_fails coffee_store ''1'' =
       (coffee_store\<lparr>transactions := []\<rparr>,
        \<lparr>status = 500, json = JObject [(''error'', JStr ''SQLITE_IOERR: disk I/O error'')]\<rparr>,
        [(Run (DELETE_transactions (JStr ''1'')), None),
         (Run (DELETE_user_transaction_mapping (JStr ''1'')), Some ''SQLITE_IOERR: disk I/O error'')])"
    by (simp add: eval_defs quiet_def coffee_row_def coffee_store_def second_call_fails_def
        delete_api_transactions_def)
  have s2: "db_run (fault_at second_call_fails 0) coffee_store (DELETE_transactions (JStr ''1'')) =
       Inr (coffee_store\<lparr>transactions := []\<rparr>, \<lparr>lastID = 0, changes = 1\<rparr>)"
    by (simp add: eval_defs quiet_def coffee_row_def coffee_store_def second_call_fails_def)
  have s3: "db_run (fault_at second_call_fails 1) (coffee_store\<lparr>transactions := []\<rparr>)
              (DELETE_user_transaction_mapping (JStr ''1'')) = Inl ''SQLITE_IOERR: disk I/O error''"
    by (simp add: eval_defs quiet_def coffee_row_def coffee_store_def second_call_fails_def)
  have z: "changes \<lparr>lastID = 0, changes = 0\<rparr> = 0" and nz: "changes \<lparr>lastID = 0, changes = 1\<rparr> \<noteq> 0"
    by simp_all
  note a = delete_transaction_two_step [OF ok1 r1, THEN conjunct1, THEN mp, OF conjI [OF s1 z]]
  note c = delete_transaction_two_step [OF ok2 r2, THEN conjunct2, THEN conjunct2, THEN mp,
      OF conjI [OF s2 conjI [OF nz s3]]]
  from c have "user_transaction_mapping (coffee_store\<lparr>transactions := []\<rparr>) = user_transaction_mapping coffee_store"
    by blast
  with a ok1 ok2 r1 r2 s2 show ?thesis
    by blast
qed

text \<open>
  C3. Take a transaction row \<open>t\<close> that the path parameter selects. Unless the store fails
  on its own, the delete request answers 200. After a 200, no transaction row has the key
  of \<open>t\<close> and no mapping row refers to it, and whatever user a later
  \<^verbatim>\<open>GET /api/transactions/:userId\<close> asks for, no listed row carries that key.
\<close>

theorem delete_then_list:
  assumes run: "delete_api_transactions e db transactionid = (db', resp, tr)"
    and row: "t \<in> set (transactions db)"
    and hit: "where_eq INTEGER (SInt (t_transactionid t)) (SText transactionid)"
  shows "(fault_at e 0 = None \<and> fault_at e 1 = None \<longrightarrow> status resp = 200)
       \<and> (status resp = 200 \<longrightarrow>
            t_transactionid t \<notin> set (map t_transactionid (transactions db'))
            \<and> filter (\<lambda>m. sql_eq (SInt (t_transactionid t)) (utm_transactionid m))
                 (user_transaction_mapping db') = [])
       \<and> (status resp = 200
            \<and> get_api_transactions e' db' userId = (db'', resp', tr')
            \<and> json resp' = JArray rows
          \<longrightarrow> list_all (\<lambda>r. js_get r ''transactionid'' \<noteq> JNum (t_transactionid t)) rows)"
proof -
  let ?hit = "\<lambda>t. where_eq INTEGER (SInt (t_transactionid t)) (SText transactionid)"
  let ?hitm = "\<lambda>m. where_eq INTEGER (utm_transactionid m) (SText transactionid)"
  from hit have aff: "affinity INTEGER (SText transactionid) = SInt (t_transactionid t)"
    by (simp add: where_eq_def)
  from row hit have nonempty: "length (filter ?hit (transactions db)) \<noteq> 0"
    by (auto simp: filter_empty_conv)
  have first: "fault_at e 0 = None \<and> fault_at e 1 = None \<longrightarrow> status resp = 200"
    using run nonempty
    by (auto simp: delete_api_transactions_def db_run_def Let_def exec_DELETE_transactions
        exec_DELETE_user_transaction_mapping split: if_splits)
  have gone_t: "\<forall>x\<in>set (transactions db'). t_transactionid x \<noteq> t_transactionid t"
    and gone_m: "\<forall>m\<in>set (user_transaction_mapping db'). utm_transactionid m \<noteq> SInt (t_transactionid t)"
    if ok: "status resp = 200"
  proof -
    from run ok have db': "db' = db\<lparr>transactions := filter (\<lambda>t. \<not> ?hit t) (transactions db),
        user_transaction_mapping := filter (\<lambda>m. \<not> ?hitm m) (user_transaction_mapping db)\<rparr>"
      by (auto simp: delete_api_transactions_def db_run_def Let_def exec_DELETE_transactions
          exec_DELETE_user_transaction_mapping split: if_splits option.splits)
    show "\<forall>x\<in>set (transactions db'). t_transactionid x \<noteq> t_transactionid t"
      using aff by (auto simp: db' where_eq_def)
    show "\<forall>m\<in>set (user_transaction_mapping db'). utm_transactionid m \<noteq> SInt (t_transactionid t)"
      using aff by (auto simp: db' where_eq_def)
  qed
  have gone: "t_transactionid t \<notin> set (map t_transactionid (transactions db'))
            \<and> filter (\<lambda>m. sql_eq (SInt (t_transactionid t)) (utm_transactionid m))
                 (user_transaction_mapping db') = []" if ok: "status resp = 200"
    using gone_t [OF ok] gone_m [OF ok] by (auto simp: filter_empty_conv)
  have listed: "list_all (\<lambda>r. js_get r ''transactionid'' \<noteq> JNum (t_transactionid t)) rows"
    if ok: "status resp = 200"
      and g: "get_api_transactions e' db' userId = (db'', resp', tr')"
      and j: "json resp' = JArray rows"
  proof -
    from g j have rows: "rows = rows_of (SELECT_transactions_of_user (JStr userId)) db'"
      by (auto simp: get_api_transactions_result split: option.splits)
    from gone_t [OF ok] show ?thesis
      unfolding rows list_all_iff rows_of_transactions_set by auto
  qed
  from first gone listed show ?thesis
    by blast
qed

theorem delete_then_list_witness:
  "coffee_row \<in> set (transactions coffee_store)
   \<and> where_eq INTEGER (SInt (t_transactionid coffee_row)) (SText ''1'')
   \<and> delete_api_transactions quiet coffee_store ''1'' =
       (init_store\<lparr>transactions_seq := 1\<rparr>,
        \<lparr>status = 200, json = JObject [(''message'', JStr ''Transaction 1 deleted successfully'')]\<rparr>,
        [(Run (DELETE_transactions (JStr ''1'')), None),
         (Run (DELETE_user_transaction_mapping (JStr ''1'')), None)])
   \<and> t_transactionid coffee_row \<notin> set (map t_transactionid (transactions (init_store\<lparr>transactions_seq := 1\<rparr>)))
   \<and> filter (\<lambda>m. sql_eq (SInt (t_transactionid coffee_row)) (utm_transactionid m))
        (user_transaction_mapping (init_store\<lparr>transactions_seq := 1\<rparr>)) = []
   \<and> get_api_transactions quiet (init_store\<lparr>transactions_seq := 1\<rparr>) ''1'' =
       (init_store\<lparr>transactions_seq := 1\<rparr>, \<lparr>status = 200, json = JArray []\<rparr>,
        [(All (SELECT_transactions_of_user (JStr ''1'')), None)])"
proof -
  have row: "coffee_row \<in> set (transactions coffee_store)"
    by (simp add: eval_defs quiet_def coffee_row_def coffee_store_def)
  have hit: "where_eq INTEGER (SInt (t_transactionid coffee_row)) (SText ''1'')"
    by (simp add: eval_defs quiet_def coffee_row_def coffee_store_def)
  have run: "delete_api_transactions quiet coffee_store ''1'' =
       (init_store\<lparr>transactions_seq := 1\<rparr>,
        \<lparr>status = 200, json = JObject [(''message'', JStr ''Transaction 1 deleted successfully'')]\<rparr>,
        [(Run (DELETE_transactions (JStr ''1'')), None),
         (Run (DELETE_user_transaction_mapping (JStr ''1'')), None)])"
    by (simp add: eval_defs quiet_def coffee_row_def coffee_store_def delete_api_transactions_def)
  have lst: "get_api_transactions quiet (init_store\<lparr>transactions_seq := 1\<rparr>) ''1'' =
       (init_store\<lparr>transactions_seq := 1\<rparr>, \<lparr>status = 200, json = JArray []\<rparr>,
        [(All (SELECT_transactions_of_user (JStr ''1'')), None)])"
    by (simp add: eval_defs quiet_def coffee_row_def coffee_store_def get_api_transactions_def)
  have st: "status \<lparr>status = 200, json = JObject [(''message'', JStr ''Transaction 1 deleted successfully'')]\<rparr> = 200"
    by simp
  note gone = delete_then_list [OF run row hit, THEN conjunct2, THEN conjunct1, THEN mp, OF st]
  with row hit run lst show ?thesis
    by blast
qed

section \<open>Listing the transactions of a user\<close>

text \<open>
  C4. After a \<^verbatim>\<open>POST /api/transactions\<close> that answered 200, a
  \<^verbatim>\<open>GET /api/transactions/:userId\<close> on the store it left, with no failure of the store,
  answers 200 with an array that contains the created row (under the reported
  \<open>transactionid\<close>, with the values as stored), for every path segment that SQLite's
  comparison identifies with the stored \<open>userid\<close>; when the \<open>userid\<close> of the body is a
  number, its decimal text is such a segment.
\<close>

theorem create_then_list:
  assumes run: "post_api_transactions e db body = (db', resp, tr)"
    and success: "status resp = 200"
    and calm: "fault_at e' 0 = None"
  shows "\<exists>tid. reported resp ''transactionid'' = Some tid
          \<and> (where_eq INTEGER (affinity INTEGER (bind_param (js_get body ''userid''))) (SText userId)
             \<longrightarrow> (\<exists>rows.
                   get_api_transactions e' db' userId =
                     (db', \<lparr>status = 200, json = JArray rows\<rparr>,
                      [(All (SELECT_transactions_of_user (JStr userId)), None)])
                   \<and> transaction_obj
                        \<lparr>t_transactionid = tid,
                          t_isExpense = affinity BOOLEAN (bind_param (js_get body ''isExpense'')),
                          t_amount = affinity INTEGER (bind_param (js_get body ''amount'')),
                          t_categoryid = affinity INTEGER (bind_param (js_get body ''categoryid'')),
                          t_description = affinity TEXT (bind_param (js_get body ''description'')),
                          t_timestamp = SText (now e)\<rparr> \<in> set rows))
          \<and> (\<forall>n. js_get body ''userid'' = JNum n
                \<longrightarrow> (\<exists>rows db'' tr'.
                       get_api_transactions e' db' (dec_of_int n) = (db'', \<lparr>status = 200, json = JArray rows\<rparr>, tr')
                       \<and> list_ex (\<lambda>r. js_get r ''transactionid'' = JNum tid) rows))"
proof -
  let ?sql1 = "INSERT_transactions (js_get body ''isExpense'') (js_get body ''amount'')
               (js_get body ''categoryid'') (js_get body ''description'') (JStr (now e))"
  from post_api_transactions_success [OF run success] obtain db1 ctx db2 ctx2 where
    s1: "exec ?sql1 db = Inr (db1, ctx)"
    and s2: "exec (INSERT_user_transaction_mapping (js_get body ''userid'') (JNum (lastID ctx))) db1 = Inr (db2, ctx2)"
    and db': "db' = db2"
    and resp: "reported resp ''transactionid'' = Some (lastID ctx)"
    by (auto simp: reported_head)
  let ?row = "\<lparr>t_transactionid = lastID ctx,
                          t_isExpense = affinity BOOLEAN (bind_param (js_get body ''isExpense'')),
                          t_amount = affinity INTEGER (bind_param (js_get body ''amount'')),
                          t_categoryid = affinity INTEGER (bind_param (js_get body ''categoryid'')),
                          t_description = affinity TEXT (bind_param (js_get body ''description'')),
                          t_timestamp = SText (now e)\<rparr>"
  let ?m = "\<lparr>utm_userid = affinity INTEGER (bind_param (js_get body ''userid'')),
             utm_transactionid = SInt (lastID ctx)\<rparr>"
  from exec_INSERT_transactions(1) [OF s1] exec_INSERT_user_transaction_mapping(1) [OF s2] db'
  have tx: "?row \<in> set (transactions db')" and mp: "?m \<in> set (user_transaction_mapping db')"
    by simp_all
  have listed: "transaction_obj ?row \<in> set (rows_of (SELECT_transactions_of_user (JStr u)) db')"
    if "where_eq INTEGER (affinity INTEGER (bind_param (js_get body ''userid''))) (SText u)" for u
    unfolding rows_of_transactions_set using tx mp that
    by (intro CollectI exI [of _ ?row] exI [of _ ?m]) simp
  have g: "get_api_transactions e' db' u =
             (db', \<lparr>status = 200, json = JArray (rows_of (SELECT_transactions_of_user (JStr u)) db')\<rparr>,
              [(All (SELECT_transactions_of_user (JStr u)), None)])" for u
    using calm by (simp add: get_api_transactions_result)
  have dec: "list_ex (\<lambda>r. js_get r ''transactionid'' = JNum (lastID ctx))
               (rows_of (SELECT_transactions_of_user (JStr (dec_of_int n))) db')"
    if "js_get body ''userid'' = JNum n" for n
  proof -
    from that have "where_eq INTEGER (affinity INTEGER (bind_param (js_get body ''userid''))) (SText (dec_of_int n))"
      by (simp add: where_eq_decimal)
    from listed [OF this] show ?thesis
      unfolding list_ex_iff by (intro bexI [of _ "transaction_obj ?row"]) simp_all
  qed
  from resp listed g dec show ?thesis
    by blast
qed

theorem create_then_list_witness:
  "post_api_transactions quiet init_store coffee =
     (coffee_store,
      \<lparr>status = 200,
        json = JObject [(''transactionid'', JNum 1), (''userid'', JNum 1), (''isExpense'', JBool True),
                        (''amount'', JNum 500), (''categoryid'', JNum 2),
                        (''description'', JStr ''coffee''),
                        (''timestamp'', JStr ''2024-05-01T12:00:00.000Z'')]\<rparr>,
      [(Run (INSERT_transactions (JBool True) (JNum 500) (JNum 2) (JStr ''coffee'')
               (JStr ''2024-05-01T12:00:00.000Z'')), None),
       (Run (INSERT_user_transaction_mapping (JNum 1) (JNum 1)), None)])
   \<and> fault_at quiet 0 = None
   \<and> where_eq INTEGER (affinity INTEGER (bind_param (js_get coffee ''userid''))) (SText ''1'')
   \<and> (\<exists>rows. get_api_transactions quiet coffee_store ''1'' =
                (coffee_store, \<lparr>status = 200, json = JArray rows\<rparr>,
                 [(All (SELECT_transactions_of_user (JStr ''1'')), None)])
              \<and> transaction_obj coffee_row \<in> set rows)"
proof -
  let ?resp = "\<lparr>status = 200,
        json = JObject [(''transactionid'', JNum 1), (''userid'', JNum 1), (''isExpense'', JBool True),
                        (''amount'', JNum 500), (''categoryid'', JNum 2),
                        (''description'', JStr ''coffee''),
                        (''timestamp'', JStr ''2024-05-01T12:00:00.000Z'')]\<rparr>"
  have run: "post_api_transactions quiet init_store coffee =
     (coffee_store, ?resp,
      [(Run (INSERT_transactions (JBool True) (JNum 500) (JNum 2) (JStr ''coffee'')
               (JStr ''2024-05-01T12:00:00.000Z'')), None),
       (Run (INSERT_user_transaction_mapping (JNum 1) (JNum 1)), None)])"
    by (simp add: eval_defs quiet_def coffee_def coffee_row_def coffee_store_def
        post_api_transactions_def)
  have st: "status ?resp = 200"
    by simp
  have calm: "fault_at quiet 0 = None"
    by (simp add: eval_defs quiet_def coffee_def coffee_row_def coffee_store_def)
  have same: "where_eq INTEGER (affinity INTEGER (bind_param (js_get coffee ''userid''))) (SText ''1'')"
    by (simp add: eval_defs quiet_def coffee_def coffee_row_def coffee_store_def)
  have rep: "reported ?resp ''transactionid'' = Some 1"
    by (simp add: reported_head)
  have row: "\<lparr>t_transactionid = 1,
               t_isExpense = affinity BOOLEAN (bind_param (js_get coffee ''isExpense'')),
               t_amount = affinity INTEGER (bind_param (js_get coffee ''amount'')),
               t_categoryid = affinity INTEGER (bind_param (js_get coffee ''categoryid'')),
               t_description = affinity TEXT (bind_param (js_get coffee ''description'')),
               t_timestamp = SText (now quiet)\<rparr> = coffee_row"
    by (simp add: eval_defs quiet_def coffee_def coffee_row_def coffee_store_def)
  from create_then_list [OF run st calm, of "''1''"] rep same row
  have "\<exists>rows. get_api_transactions quiet coffee_store ''1'' =
                (coffee_store, \<lparr>status = 200, json = JArray rows\<rparr>,
                 [(All (SELECT_transactions_of_user (JStr ''1'')), None)])
              \<and> transaction_obj coffee_row \<in> set rows"
    by auto
  with run calm same show ?thesis
    by blast
qed

text \<open>
  C10. On a store whose transaction keys are distinct (the PRIMARY KEY), a listing that
  the store does not fail answers 200 with an array in which each transaction row
  occurs once per mapping row that carries its key and the asked \<open>userid\<close>; every listed
  row is a transaction row; and a transaction row that no mapping row refers to is not
  listed, whoever is asked for.
\<close>

theorem list_transactions_by_mapping:
  assumes keys: "distinct (map t_transactionid (transactions db))"
    and calm: "fault_at e 0 = None"
    and run: "get_api_transactions e db userId = (db', resp, tr)"
  shows "\<exists>rows. resp = \<lparr>status = 200, json = JArray rows\<rparr>
          \<and> (\<forall>t\<in>set (transactions db).
                count_list rows (transaction_obj t) =
                  length (filter (\<lambda>m. utm_transactionid m = SInt (t_transactionid t)
                                       \<and> where_eq INTEGER (utm_userid m) (SText userId))
                            (user_transaction_mapping db)))
          \<and> (\<forall>r\<in>set rows. \<exists>t\<in>set (transactions db). r = transaction_obj t)
          \<and> (\<forall>t\<in>set (transactions db).
                filter (\<lambda>m. utm_transactionid m = SInt (t_transactionid t)) (user_transaction_mapping db) = []
                \<longrightarrow> transaction_obj t \<notin> set rows)"
proof -
  let ?rows = "rows_of (SELECT_transactions_of_user (JStr userId)) db"
  from run calm have resp: "resp = \<lparr>status = 200, json = JArray ?rows\<rparr>"
    by (auto simp: get_api_transactions_result)
  have cnt: "\<forall>t\<in>set (transactions db).
                count_list ?rows (transaction_obj t) =
                  length (filter (\<lambda>m. utm_transactionid m = SInt (t_transactionid t)
                                       \<and> where_eq INTEGER (utm_userid m) (SText userId))
                            (user_transaction_mapping db))"
    using rows_of_transactions_count [OF keys, of _ "JStr userId"] by simp
  have src: "\<forall>r\<in>set ?rows. \<exists>t\<in>set (transactions db). r = transaction_obj t"
    unfolding rows_of_transactions_set by blast
  have orphan: "\<forall>t\<in>set (transactions db).
                filter (\<lambda>m. utm_transactionid m = SInt (t_transactionid t)) (user_transaction_mapping db) = []
                \<longrightarrow> transaction_obj t \<notin> set ?rows"
    unfolding rows_of_transactions_set
    by (auto simp: filter_empty_conv dest!: transaction_obj_inj)
  from resp cnt src orphan show ?thesis
    by blast
qed

theorem list_transactions_by_mapping_witness:
  "distinct (map t_transactionid (transactions coffee_store))
   \<and> fault_at quiet 0 = None
   \<and> get_api_transactions quiet coffee_store ''1'' =
       (coffee_store, \<lparr>status = 200, json = JArray [transaction_obj coffee_row]\<rparr>,
        [(All (SELECT_transactions_of_user (JStr ''1'')), None)])
   \<and> count_list [transaction_obj coffee_row] (transaction_obj coffee_row) =
       length (filter (\<lambda>m. utm_transactionid m = SInt (t_transactionid coffee_row)
                            \<and> where_eq INTEGER (utm_userid m) (SText ''1''))
                 (user_transaction_mapping coffee_store))
   \<and> get_api_transactions quiet orphan_store ''1'' =
       (orphan_store, \<lparr>status = 200, json = JArray []\<rparr>,
        [(All (SELECT_transactions_of_user (JStr ''1'')), None)])"
proof -
  have keys: "distinct (map t_transactionid (transactions coffee_store))"
    by (simp add: eval_defs quiet_def coffee_row_def orphan_store_def coffee_store_def)
  have calm: "fault_at quiet 0 = None"
    by (simp add: eval_defs quiet_def coffee_row_def orphan_store_def coffee_store_def)
  have run: "get_api_transactions quiet coffee_store ''1'' =
       (coffee_store, \<lparr>status = 200, json = JArray [transaction_obj coffee_row]\<rparr>,
        [(All (SELECT_transactions_of_user (JStr ''1'')), None)])"
    by (simp add: eval_defs quiet_def coffee_row_def orphan_store_def coffee_store_def
        get_api_transactions_def)
  have run2: "get_api_transactions quiet orphan_store ''1'' =
       (orphan_store, \<lparr>status = 200, json = JArray []\<rparr>,
        [(All (SELECT_transactions_of_user (JStr ''1'')), None)])"
    by (simp add: eval_defs quiet_def coffee_row_def orphan_store_def coffee_store_def
        get_api_transactions_def)
  have row: "coffee_row \<in> set (transactions coffee_store)"
    by (simp add: eval_defs quiet_def coffee_row_def orphan_store_def coffee_store_def)
  from list_transactions_by_mapping [OF keys calm run] row
  have "count_list [transaction_obj coffee_row] (transaction_obj coffee_row) =
       length (filter (\<lambda>m. utm_transactionid m = SInt (t_transactionid coffee_row)
                            \<and> where_eq INTEGER (utm_userid m) (SText ''1''))
                 (user_transaction_mapping coffee_store))"
    by auto
  with keys calm run run2 show ?thesis
    by blast
qed

section \<open>Creating a user\<close>

text \<open>
  C5, as the code has it. A \<^verbatim>\<open>POST /api/users\<close> that answers 200 has appended one row to
  \<open>users\<close> whose \<open>timestamp\<close> is the clock reading of the request, whose \<open>password\<close> is
  the posted one and whose \<open>userid\<close> is above the sequence and above every key of the
  table. The response holds exactly \<open>userid\<close>, \<open>username\<close>, \<open>email\<close> and \<open>timestamp\<close>: the
  generated key, the two echoed fields and the assigned timestamp. The password is
  stored and not echoed.
\<close>

theorem create_user_response:
  assumes run: "post_api_users e db body = (db', resp, tr)"
    and success: "status resp = 200"
  shows "\<exists>uid. resp = \<lparr>status = 200,
                       json = JObject [(''userid'', JNum uid), (''username'', js_get body ''username''),
                                       (''email'', js_get body ''email''), (''timestamp'', JStr (now e))]\<rparr>
          \<and> db' = db\<lparr>users := users db @
                       [\<lparr>u_userid = uid,
                         u_username = affinity TEXT (bind_param (js_get body ''username'')),
                         u_password = affinity TEXT (bind_param (js_get body ''password'')),
                         u_email = affinity TEXT (bind_param (js_get body ''email'')),
                         u_timestamp = SText (now e),
                         u_resetTokenId = SNull\<rparr>],
                      users_seq := uid\<rparr>
          \<and> users_seq db < uid
          \<and> list_all (\<lambda>u. u_userid u < uid) (users db)"
proof -
  from post_api_users_success [OF run success] obtain ctx where
    ex: "exec (INSERT_users (js_get body ''username'') (js_get body ''password'')
                   (js_get body ''email'') (JStr (now e))) db = Inr (db', ctx)"
    and resp: "resp = \<lparr>status = 200,
                    json = JObject [(''userid'', JNum (lastID ctx)), (''username'', js_get body ''username''),
                                    (''email'', js_get body ''email''), (''timestamp'', JStr (now e))]\<rparr>"
    by blast
  note f = exec_INSERT_users [OF ex]
  from f(1) have "db' = db\<lparr>users := users db @
                       [\<lparr>u_userid = lastID ctx,
                         u_username = affinity TEXT (bind_param (js_get body ''username'')),
                         u_password = affinity TEXT (bind_param (js_get body ''password'')),
                         u_email = affinity TEXT (bind_param (js_get body ''email'')),
                         u_timestamp = SText (now e),
                         u_resetTokenId = SNull\<rparr>],
                      users_seq := lastID ctx\<rparr>"
    by simp
  moreover from f(3) have "list_all (\<lambda>u. u_userid u < lastID ctx) (users db)"
    by (simp add: list_all_iff)
  ultimately show ?thesis
    using resp f(2) by blast
qed

theorem create_user_response_witness:
  "post_api_users quiet init_store alice =
     (alice_store,
      \<lparr>status = 200,
        json = JObject [(''userid'', JNum 1), (''username'', JStr ''a''), (''email'', JStr ''a@x.com''),
                        (''timestamp'', JStr ''2024-05-01T12:00:00.000Z'')]\<rparr>,
      [(Run (INSERT_users (JStr ''a'') (JStr ''p'') (JStr ''a@x.com'')
               (JStr ''2024-05-01T12:00:00.000Z'')), None)])
   \<and> (\<exists>uid. users_seq init_store < uid
          \<and> alice_store = init_store\<lparr>users := users init_store @
                       [\<lparr>u_userid = uid,
                         u_username = affinity TEXT (bind_param (js_get alice ''username'')),
                         u_password = affinity TEXT (bind_param (js_get alice ''password'')),
                         u_email = affinity TEXT (bind_param (js_get alice ''email'')),
                         u_timestamp = SText (now quiet),
                         u_resetTokenId = SNull\<rparr>],
                      users_seq := uid\<rparr>)"
proof -
  let ?resp = "\<lparr>status = 200,
        json = JObject [(''userid'', JNum 1), (''username'', JStr ''a''), (''email'', JStr ''a@x.com''),
                        (''timestamp'', JStr ''2024-05-01T12:00:00.000Z'')]\<rparr>"
  have run: "post_api_users quiet init_store alice =
     (alice_store, ?resp,
      [(Run (INSERT_users (JStr ''a'') (JStr ''p'') (JStr ''a@x.com'')
               (JStr ''2024-05-01T12:00:00.000Z'')), None)])"
    by (simp add: eval_defs quiet_def alice_def alice_row_def alice_store_def post_api_users_def)
  have st: "status ?resp = 200"
    by simp
  from create_user_response [OF run st] run show ?thesis
    by blast
qed

text \<open>
  C5, as the claim states it, fails: the response to the signup of the scenario has no
  \<open>password\<close> field although the body had one.
\<close>

theorem create_user_echo_counterexample:
  "post_api_users quiet init_store alice =
     (alice_store,
      \<lparr>status = 200,
        json = JObject [(''userid'', JNum 1), (''username'', JStr ''a''), (''email'', JStr ''a@x.com''),
                        (''timestamp'', JStr ''2024-05-01T12:00:00.000Z'')]\<rparr>,
      [(Run (INSERT_users (JStr ''a'') (JStr ''p'') (JStr ''a@x.com'')
               (JStr ''2024-05-01T12:00:00.000Z'')), None)])
   \<and> js_get alice ''password'' = JStr ''p''
   \<and> js_get [(''userid'', JNum 1), (''username'', JStr ''a''), (''email'', JStr ''a@x.com''),
              (''timestamp'', JStr ''2024-05-01T12:00:00.000Z'')] ''password'' = JUndefined"
  by (simp add: eval_defs quiet_def alice_def alice_row_def alice_store_def post_api_users_def)

section \<open>The two blind updates\<close>

text \<open>
  C6, as the code has it. \<^verbatim>\<open>PUT /api/users\<close> and \<^verbatim>\<open>PUT /api/password\<close> never answer 404
  and never read the number of changed rows. Unless the store fails on its own,
  \<^verbatim>\<open>PUT /api/users\<close> sets \<open>resetTokenId\<close> in every row the \<open>userid\<close> selects and answers 200
  with the posted pair, for every pair; \<^verbatim>\<open>PUT /api/password\<close> sets \<open>password\<close> in every
  selected row and answers 200 with the posted pair, for every pair that has a password
  or selects no row. A \<open>userid\<close> that selects no row leaves the store as it was. A pair
  without password that selects a row is refused by the NOT NULL constraint: the
  response is 500 and the store is unchanged. A failure of the store itself answers 500
  with its message and changes nothing.
\<close>

theorem blind_updates:
  assumes r1: "put_api_users e db body = (db1, resp1, tr1)"
    and r2: "put_api_password e db body = (db2, resp2, tr2)"
  shows "status resp1 \<noteq> 404 \<and> status resp2 \<noteq> 404
       \<and> (fault_at e 0 = None
          \<longrightarrow> resp1 = \<lparr>status = 200,
                        json = JObject [(''userid'', js_get body ''userid''),
                                        (''tokenid'', js_get body ''tokenid'')]\<rparr>
              \<and> db1 = db\<lparr>users :=
                          map (\<lambda>u. if where_eq INTEGER (SInt (u_userid u)) (bind_param (js_get body ''userid''))
                                   then u\<lparr>u_resetTokenId := affinity TEXT (bind_param (js_get body ''tokenid''))\<rparr>
                                   else u) (users db)\<rparr>
              \<and> tr1 = [(Run (UPDATE_users_resetTokenId (js_get body ''tokenid'') (js_get body ''userid'')),
                         None)])
       \<and> (fault_at e 0 = None
            \<and> (bind_param (js_get body ''password'') \<noteq> SNull
                \<or> filter (\<lambda>u. where_eq INTEGER (SInt (u_userid u)) (bind_param (js_get body ''userid'')))
                     (users db) = [])
          \<longrightarrow> resp2 = \<lparr>status = 200,
                        json = JObject [(''userid'', js_get body ''userid''),
                                        (''password'', js_get body ''password'')]\<rparr>
              \<and> db2 = db\<lparr>users :=
                          map (\<lambda>u. if where_eq INTEGER (SInt (u_userid u)) (bind_param (js_get body ''userid''))
                                   then u\<lparr>u_password := affinity TEXT (bind_param (js_get body ''password''))\<rparr>
                                   else u) (users db)\<rparr>
              \<and> tr2 = [(Run (UPDATE_users_password (js_get body ''password'') (js_get body ''userid'')),
                         None)])
       \<and> (fault_at e 0 = None
            \<and> bind_param (js_get body ''password'') = SNull
            \<and> filter (\<lambda>u. where_eq INTEGER (SInt (u_userid u)) (bind_param (js_get body ''userid'')))
                 (users db) \<noteq> []
          \<longrightarrow> resp2 = \<lparr>status = 500,
                        json = JObject [(''error'',
                                 JStr ''SQLITE_CONSTRAINT: NOT NULL constraint failed: users.password'')]\<rparr>
              \<and> db2 = db)
       \<and> (db_run (fault_at e 0) db
             (UPDATE_users_password (js_get body ''password'') (js_get body ''userid'')) = Inr (d2, c2)
          \<longrightarrow> resp2 = \<lparr>status = 200,
                        json = JObject [(''userid'', js_get body ''userid''),
                                        (''password'', js_get body ''password'')]\<rparr>)
       \<and> (fault_at e 0 = None
            \<and> filter (\<lambda>u. where_eq INTEGER (SInt (u_userid u)) (bind_param (js_get body ''userid'')))
                 (users db) = []
          \<longrightarrow> db1 = db \<and> db2 = db
              \<and> resp1 = \<lparr>status = 200,
                          json = JObject [(''userid'', js_get body ''userid''),
                                          (''tokenid'', js_get body ''tokenid'')]\<rparr>
              \<and> resp2 = \<lparr>status = 200,
                          json = JObject [(''userid'', js_get body ''userid''),
                                          (''password'', js_get body ''password'')]\<rparr>)
       \<and> (fault_at e 0 = Some err
          \<longrightarrow> db1 = db \<and> db2 = db
              \<and> resp1 = \<lparr>status = 500, json = JObject [(''error'', JStr err)]\<rparr>
              \<and> resp2 = \<lparr>status = 500, json = JObject [(''error'', JStr err)]\<rparr>)"
proof -
  let ?hit = "\<lambda>u. where_eq INTEGER (SInt (u_userid u)) (bind_param (js_get body ''userid''))"
  let ?ok1 = "\<lparr>status = 200,
                json = JObject [(''userid'', js_get body ''userid''),
                                (''tokenid'', js_get body ''tokenid'')]\<rparr>"
  let ?ok2 = "\<lparr>status = 200,
                json = JObject [(''userid'', js_get body ''userid''),
                                (''password'', js_get body ''password'')]\<rparr>"
  have a: "status resp1 \<noteq> 404"
    using r1 by (auto simp: put_api_users_def Let_def split: sum.splits)
  have b: "status resp2 \<noteq> 404"
    using r2 by (auto simp: put_api_password_def Let_def split: sum.splits)
  have c: "resp1 = ?ok1
      \<and> db1 = db\<lparr>users := map (\<lambda>u. if ?hit u
                   then u\<lparr>u_resetTokenId := affinity TEXT (bind_param (js_get body ''tokenid''))\<rparr>
                   else u) (users db)\<rparr>
      \<and> tr1 = [(Run (UPDATE_users_resetTokenId (js_get body ''tokenid'') (js_get body ''userid'')), None)]"
    if "fault_at e 0 = None"
    using r1 that
    by (auto simp: put_api_users_def Let_def db_run_def exec_UPDATE_users_resetTokenId)
  have d: "resp2 = ?ok2"
    if "db_run (fault_at e 0) db
             (UPDATE_users_password (js_get body ''password'') (js_get body ''userid'')) = Inr (d2, c2)"
    using r2 that by (auto simp: put_api_password_def Let_def)
  have d': "resp2 = ?ok2
      \<and> db2 = db\<lparr>users := map (\<lambda>u. if ?hit u
                   then u\<lparr>u_password := affinity TEXT (bind_param (js_get body ''password''))\<rparr>
                   else u) (users db)\<rparr>
      \<and> tr2 = [(Run (UPDATE_users_password (js_get body ''password'') (js_get body ''userid'')), None)]"
    if "fault_at e 0 = None
        \<and> (bind_param (js_get body ''password'') \<noteq> SNull \<or> filter ?hit (users db) = [])"
    using r2 that
    by (auto simp: put_api_password_def Let_def db_run_def exec_UPDATE_users_password)
  have f: "resp2 = \<lparr>status = 500,
                        json = JObject [(''error'',
                                 JStr ''SQLITE_CONSTRAINT: NOT NULL constraint failed: users.password'')]\<rparr>
              \<and> db2 = db"
    if "fault_at e 0 = None \<and> bind_param (js_get body ''password'') = SNull \<and> filter ?hit (users db) \<noteq> []"
    using r2 that
    by (auto simp: put_api_password_def Let_def db_run_def exec_UPDATE_users_password)
  have z: "db1 = db \<and> db2 = db \<and> resp1 = ?ok1 \<and> resp2 = ?ok2"
    if calm: "fault_at e 0 = None" and none: "filter ?hit (users db) = []"
  proof -
    from none have same: "map (\<lambda>u. if ?hit u then g u else u) (users db) = users db" for g
      by (rule map_no_hit)
    from c [OF calm] d' calm none show ?thesis
      by (simp add: same)
  qed
  have g: "db1 = db \<and> db2 = db
              \<and> resp1 = \<lparr>status = 500, json = JObject [(''error'', JStr err)]\<rparr>
              \<and> resp2 = \<lparr>status = 500, json = JObject [(''error'', JStr err)]\<rparr>"
    if "fault_at e 0 = Some err"
    using r1 r2 that
    by (auto simp: put_api_users_def put_api_password_def Let_def db_run_def)
  from a b c d d' f z g show ?thesis
    by blast
qed

theorem blind_updates_witness:
  "put_api_users quiet alice_store update_of_alice =
     (alice_store\<lparr>users := [alice_row\<lparr>u_resetTokenId := SText ''3''\<rparr>]\<rparr>,
      \<lparr>status = 200, json = JObject [(''userid'', JNum 1), (''tokenid'', JStr ''3'')]\<rparr>,
      [(Run (UPDATE_users_resetTokenId (JStr ''3'') (JNum 1)), None)])
   \<and> put_api_password quiet alice_store update_of_alice =
     (alice_store\<lparr>users := [alice_row\<lparr>u_password := SText ''q''\<rparr>]\<rparr>,
      \<lparr>status = 200, json = JObject [(''userid'', JNum 1), (''password'', JStr ''q'')]\<rparr>,
      [(Run (UPDATE_users_password (JStr ''q'') (JNum 1)), None)])
   \<and> put_api_users quiet init_store update_of_nobody =
     (init_store, \<lparr>status = 200, json = JObject [(''userid'', JNum 7), (''tokenid'', JNum 3)]\<rparr>,
      [(Run (UPDATE_users_resetTokenId (JNum 3) (JNum 7)), None)])
   \<and> put_api_password quiet init_store update_of_nobody =
     (init_store, \<lparr>status = 200, json = JObject [(''userid'', JNum 7), (''password'', JStr ''q'')]\<rparr>,
      [(Run (UPDATE_users_password (JStr ''q'') (JNum 7)), None)])
   \<and> fault_at quiet 0 = None
   \<and> bind_param (js_get update_of_alice ''password'') \<noteq> SNull
   \<and> filter (\<lambda>u. where_eq INTEGER (SInt (u_userid u)) (bind_param (js_get update_of_nobody ''userid'')))
        (users init_store) = []
   \<and> alice_store\<lparr>users := [alice_row\<lparr>u_resetTokenId := SText ''3''\<rparr>]\<rparr> =
       alice_store\<lparr>users :=
          map (\<lambda>u. if where_eq INTEGER (SInt (u_userid u)) (bind_param (js_get update_of_alice ''userid''))
                   then u\<lparr>u_resetTokenId := affinity TEXT (bind_param (js_get update_of_alice ''tokenid''))\<rparr>
                   else u) (users alice_store)\<rparr>
   \<and> alice_store\<lparr>users := [alice_row\<lparr>u_password := SText ''q''\<rparr>]\<rparr> =
       alice_store\<lparr>users :=
          map (\<lambda>u. if where_eq INTEGER (SInt (u_userid u)) (bind_param (js_get update_of_alice ''userid''))
                   then u\<lparr>u_password := affinity TEXT (bind_param (js_get update_of_alice ''password''))\<rparr>
                   else u) (users alice_store)\<rparr>"
proof -
  have r1: "put_api_users quiet alice_store update_of_alice =
     (alice_store\<lparr>users := [alice_row\<lparr>u_resetTokenId := SText ''3''\<rparr>]\<rparr>,
      \<lparr>status = 200, json = JObject [(''userid'', JNum 1), (''tokenid'', JStr ''3'')]\<rparr>,
      [(Run (UPDATE_users_resetTokenId (JStr ''3'') (JNum 1)), None)])"
    by (simp add: eval_defs quiet_def alice_store_def alice_row_def update_of_alice_def
        put_api_users_def)
  have r2: "put_api_password quiet alice_store update_of_alice =
     (alice_store\<lparr>users := [alice_row\<lparr>u_password := SText ''q''\<rparr>]\<rparr>,
      \<lparr>status = 200, json = JObject [(''userid'', JNum 1), (''password'', JStr ''q'')]\<rparr>,
      [(Run (UPDATE_users_password (JStr ''q'') (JNum 1)), None)])"
    by (simp add: eval_defs quiet_def alice_store_def alice_row_def update_of_alice_def
        put_api_password_def)
  have n1: "put_api_users quiet init_store update_of_nobody =
     (init_store, \<lparr>status = 200, json = JObject [(''userid'', JNum 7), (''tokenid'', JNum 3)]\<rparr>,
      [(Run (UPDATE_users_resetTokenId (JNum 3) (JNum 7)), None)])"
    by (simp add: eval_defs quiet_def update_of_nobody_def put_api_users_def)
  have n2: "put_api_password quiet init_store update_of_nobody =
     (init_store, \<lparr>status = 200, json = JObject [(''userid'', JNum 7), (''password'', JStr ''q'')]\<rparr>,
      [(Run (UPDATE_users_password (JStr ''q'') (JNum 7)), None)])"
    by (simp add: eval_defs quiet_def update_of_nobody_def put_api_password_def)
  have calm: "fault_at quiet 0 = None"
    by (simp add: eval_defs quiet_def)
  have pw: "bind_param (js_get update_of_alice ''password'') \<noteq> SNull"
    by (simp add: eval_defs update_of_alice_def)
  have none: "filter (\<lambda>u. where_eq INTEGER (SInt (u_userid u)) (bind_param (js_get update_of_nobody ''userid'')))
        (users init_store) = []"
    by (simp add: eval_defs update_of_nobody_def)
  note a = blind_updates [OF r1 r2]
  note u1 = a [THEN conjunct2, THEN conjunct2, THEN conjunct1, THEN mp, OF calm]
  note u2 = a [THEN conjunct2, THEN conjunct2, THEN conjunct2, THEN conjunct1, THEN mp,
      OF conjI [OF calm disjI1 [OF pw]]]
  note z = blind_updates [OF n1 n2, THEN conjunct2, THEN conjunct2, THEN conjunct2, THEN conjunct2,
      THEN conjunct2, THEN conjunct2, THEN conjunct1, THEN mp, OF conjI [OF calm none]]
  from u1 u2 z r1 r2 n1 n2 calm pw none show ?thesis
    by blast
qed

text \<open>
  C6, as the claim states it, fails: a password update of an existing user without a
  password does not succeed; the response is 500.
\<close>

theorem blind_updates_counterexample:
  "users alice_store = [alice_row]
   \<and> u_userid alice_row = 1
   \<and> js_get password_missing ''userid'' = JNum 1
   \<and> js_get password_missing ''password'' = JUndefined
   \<and> put_api_password quiet alice_store password_missing =
       (alice_store,
        \<lparr>status = 500,
          json = JObject [(''error'', JStr ''SQLITE_CONSTRAINT: NOT NULL constraint failed: users.password'')]\<rparr>,
        [(Run (UPDATE_users_password JUndefined (JNum 1)),
          Some ''SQLITE_CONSTRAINT: NOT NULL constraint failed: users.password'')])"
  by (simp add: eval_defs quiet_def alice_store_def alice_row_def password_missing_def
      put_api_password_def)

section \<open>Surrogate keys\<close>

text \<open>
  C7. In every run of the server from any store, a key that a create request reports
  (\<open>userid\<close>, \<open>transactionid\<close> or the \<open>id\<close> of a reset token) is above the table's
  sequence at the start of the run and above every key of the same kind reported earlier
  in the run, whatever requests (deletions among them) came in between. From a store that
  satisfies \<open>store_ok\<close> it is also above every key its table held at the start or after
  any earlier request of the run, so the key of a row deleted since is not given again.
\<close>

theorem surrogate_keys_increase:
  assumes run: "serve db rs = (db', out)"
    and j: "j < length rs"
    and new: "assigned (snd (rs ! j)) (out ! j) = Some (k, b)"
  shows "key_seq k db < b
       \<and> (i < j \<and> assigned (snd (rs ! i)) (out ! i) = Some (k, a) \<longrightarrow> a < b)
       \<and> (store_ok db \<and> i \<le> j \<longrightarrow> list_all (\<lambda>x. x < b) (key_ids k (fst (serve db (take i rs)))))"
proof -
  have low: "key_seq k db < b"
    using run j new by (rule serve_assigned_lower)
  have pair: "i < j \<and> assigned (snd (rs ! i)) (out ! i) = Some (k, a) \<longrightarrow> a < b"
    using serve_assigned_pair [OF run _ j _ new] by blast
  have old: "list_all (\<lambda>x. x < b) (key_ids k (fst (serve db (take i rs))))"
    if ok: "store_ok db" and i: "i \<le> j"
  proof -
    from ok have "store_ok (fst (serve db (take i rs)))"
      by (rule serve_store_ok)
    then have "list_all (\<lambda>x. x \<le> key_seq k (fst (serve db (take i rs)))) (key_ids k (fst (serve db (take i rs))))"
      by (rule store_ok_key_ids)
    moreover have "key_seq k (fst (serve db (take i rs))) < b"
      using run j i new by (rule serve_assigned_after_prefix)
    ultimately show ?thesis
      by (auto simp: list_all_iff)
  qed
  from low pair old show ?thesis
    by blast
qed

theorem surrogate_keys_increase_witness:
  "serve init_store create_delete_create =
     (init_store\<lparr>transactions := [coffee_row\<lparr>t_transactionid := 2\<rparr>], transactions_seq := 2,
        user_transaction_mapping := [\<lparr>utm_userid = SInt 1, utm_transactionid = SInt 2\<rparr>]\<rparr>,
      [\<lparr>status = 200,
         json = JObject [(''transactionid'', JNum 1), (''userid'', JNum 1), (''isExpense'', JBool True),
                         (''amount'', JNum 500), (''categoryid'', JNum 2),
                         (''description'', JStr ''coffee''),
                         (''timestamp'', JStr ''2024-05-01T12:00:00.000Z'')]\<rparr>,
       \<lparr>status = 200, json = JObject [(''message'', JStr ''Transaction 1 deleted successfully'')]\<rparr>,
       \<lparr>status = 200,
         json = JObject [(''transactionid'', JNum 2), (''userid'', JNum 1), (''isExpense'', JBool True),
                         (''amount'', JNum 500), (''categoryid'', JNum 2),
                         (''description'', JStr ''coffee''),
                         (''timestamp'', JStr ''2024-05-01T12:00:00.000Z'')]\<rparr>])
   \<and> key_seq Transactionid init_store < 2
   \<and> (1 :: int) < 2
   \<and> key_ids Transactionid (fst (serve init_store (take 1 create_delete_create))) = [1]
   \<and> key_ids Transactionid (fst (serve init_store (take 2 create_delete_create))) = []
   \<and> list_all (\<lambda>x. x < 2) (key_ids Transactionid (fst (serve init_store (take 1 create_delete_create))))"
proof -
  let ?r1 = "\<lparr>status = 200,
         json = JObject [(''transactionid'', JNum 1), (''userid'', JNum 1), (''isExpense'', JBool True),
                         (''amount'', JNum 500), (''categoryid'', JNum 2),
                         (''description'', JStr ''coffee''),
                         (''timestamp'', JStr ''2024-05-01T12:00:00.000Z'')]\<rparr>"
  let ?r2 = "\<lparr>status = 200, json = JObject [(''message'', JStr ''Transaction 1 deleted successfully'')]\<rparr>"
  let ?r3 = "\<lparr>status = 200,
         json = JObject [(''transactionid'', JNum 2), (''userid'', JNum 1), (''isExpense'', JBool True),
                         (''amount'', JNum 500), (''categoryid'', JNum 2),
                         (''description'', JStr ''coffee''),
                         (''timestamp'', JStr ''2024-05-01T12:00:00.000Z'')]\<rparr>"
  have run: "serve init_store create_delete_create =
     (init_store\<lparr>transactions := [coffee_row\<lparr>t_transactionid := 2\<rparr>], transactions_seq := 2,
        user_transaction_mapping := [\<lparr>utm_userid = SInt 1, utm_transactionid = SInt 2\<rparr>]\<rparr>,
      [?r1, ?r2, ?r3])"
    by (simp add: eval_defs quiet_def coffee_def coffee_row_def create_delete_create_def
        post_api_transactions_def delete_api_transactions_def)
  have j: "2 < length create_delete_create"
    by (simp add: create_delete_create_def)
  have new: "assigned (snd (create_delete_create ! 2)) ([?r1, ?r2, ?r3] ! 2) = Some (Transactionid, 2)"
    by (simp add: create_delete_create_def reported_head)
  have old: "assigned (snd (create_delete_create ! 0)) ([?r1, ?r2, ?r3] ! 0) = Some (Transactionid, 1)"
    by (simp add: create_delete_create_def reported_head)
  note k = surrogate_keys_increase [OF run j new, of 0 1]
  from k have "key_seq Transactionid init_store < 2"
    by (rule conjunct1)
  moreover from k old have "(1 :: int) < 2"
    by simp
  moreover have ok: "store_ok init_store"
    by (simp add: eval_defs)
  have held: "key_ids Transactionid (fst (serve init_store (take 1 create_delete_create))) = [1]"
    and freed: "key_ids Transactionid (fst (serve init_store (take 2 create_delete_create))) = []"
    by (simp_all add: eval_defs quiet_def coffee_def create_delete_create_def
        post_api_transactions_def delete_api_transactions_def)
  from surrogate_keys_increase [OF run j new, of 1] ok
  have "list_all (\<lambda>x. x < 2) (key_ids Transactionid (fst (serve init_store (take 1 create_delete_create))))"
    by simp
  ultimately show ?thesis
    using run held freed by blast
qed

section \<open>Nullability\<close>

text \<open>
  C8, as the code has it. The store has exactly four tables, \<open>users\<close>, \<open>transactions\<close>,
  \<open>user_transaction_mapping\<close> and \<open>resetTokens\<close>, with exactly the columns, declared types
  and nullability listed below: \<open>users.resetTokenId\<close> and \<open>transactions.description\<close> may
  hold NULL and no other column may. The rows a query returns carry exactly the column
  names of their table. Whatever requests are served from the empty store, no stored row
  holds NULL outside those two columns.
\<close>

theorem not_null_columns:
  "column_listing =
     [(''users'',
       [(''userid'', INTEGER, False), (''username'', TEXT, False), (''password'', TEXT, False),
        (''email'', TEXT, False), (''timestamp'', TEXT, False), (''resetTokenId'', TEXT, True)]),
      (''transactions'',
       [(''transactionid'', INTEGER, False), (''isExpense'', BOOLEAN, False), (''amount'', INTEGER, False),
        (''categoryid'', INTEGER, False), (''description'', TEXT, True), (''timestamp'', TEXT, False)]),
      (''user_transaction_mapping'',
       [(''userid'', INTEGER, False), (''transactionid'', INTEGER, False)]),
      (''resetTokens'',
       [(''id'', INTEGER, False), (''token'', TEXT, False), (''expiresAt'', TEXT, False)])]
   \<and> nullable_columns = [(''users'', ''resetTokenId''), (''transactions'', ''description'')]
   \<and> map fst (user_obj u) = map fst users_table
   \<and> map fst (transaction_obj t) = map fst transactions_table
   \<and> map fst (token_obj r) = map fst resetTokens_table
   \<and> no_nulls (fst (serve init_store rs))"
proof -
  have "no_nulls init_store"
    by (simp add: no_nulls_def init_store_def)
  then have inv: "no_nulls (fst (serve init_store rs))"
    by (rule serve_no_nulls)
  have cols: "column_listing =
     [(''users'',
       [(''userid'', INTEGER, False), (''username'', TEXT, False), (''password'', TEXT, False),
        (''email'', TEXT, False), (''timestamp'', TEXT, False), (''resetTokenId'', TEXT, True)]),
      (''transactions'',
       [(''transactionid'', INTEGER, False), (''isExpense'', BOOLEAN, False), (''amount'', INTEGER, False),
        (''categoryid'', INTEGER, False), (''description'', TEXT, True), (''timestamp'', TEXT, False)]),
      (''user_transaction_mapping'',
       [(''userid'', INTEGER, False), (''transactionid'', INTEGER, False)]),
      (''resetTokens'',
       [(''id'', INTEGER, False), (''token'', TEXT, False), (''expiresAt'', TEXT, False)])]"
    by (simp add: column_listing_def schema_def users_table_def transactions_table_def
        user_transaction_mapping_table_def resetTokens_table_def)
  have nul: "nullable_columns = [(''users'', ''resetTokenId''), (''transactions'', ''description'')]"
    by (simp add: nullable_columns_def schema_def users_table_def transactions_table_def
        user_transaction_mapping_table_def resetTokens_table_def)
  have names: "map fst (user_obj u) = map fst users_table"
    "map fst (transaction_obj t) = map fst transactions_table"
    "map fst (token_obj r) = map fst resetTokens_table"
    by (simp_all add: user_obj_def transaction_obj_def token_obj_def users_table_def
        transactions_table_def resetTokens_table_def)
  from inv cols nul names show ?thesis
    by simp
qed

theorem not_null_columns_witness:
  "no_nulls (fst (serve init_store [(quiet, POST_api_transactions coffee_without_description)]))
   \<and> map t_description
        (transactions (fst (serve init_store [(quiet, POST_api_transactions coffee_without_description)])))
       = [SNull]
   \<and> map fst (user_obj alice_row) = map fst users_table
   \<and> map fst (transaction_obj coffee_row) = map fst transactions_table"
proof -
  have "map t_description
        (transactions (fst (serve init_store [(quiet, POST_api_transactions coffee_without_description)])))
       = [SNull]"
    by (simp add: eval_defs quiet_def coffee_without_description_def post_api_transactions_def)
  with not_null_columns [of alice_row coffee_row _ "[(quiet, POST_api_transactions coffee_without_description)]"]
  show ?thesis
    by blast
qed

text \<open>
  C8, as the claim states it, fails: \<open>transactions.description\<close> is nullable, and a
  transaction posted without description is stored with NULL there.
\<close>

theorem not_null_columns_counterexample:
  "nullable_columns = [(''users'', ''resetTokenId''), (''transactions'', ''description'')]
   \<and> status (fst (snd (post_api_transactions quiet init_store coffee_without_description))) = 200
   \<and> map t_description (transactions (fst (post_api_transactions quiet init_store coffee_without_description)))
       = [SNull]"
proof -
  have "nullable_columns = [(''users'', ''resetTokenId''), (''transactions'', ''description'')]"
    by (simp add: nullable_columns_def schema_def users_table_def transactions_table_def
        user_transaction_mapping_table_def resetTokens_table_def)
  moreover have "status (fst (snd (post_api_transactions quiet init_store coffee_without_description))) = 200"
    and "map t_description (transactions (fst (post_api_transactions quiet init_store coffee_without_description)))
       = [SNull]"
    by (simp_all add: eval_defs quiet_def coffee_without_description_def post_api_transactions_def)
  ultimately show ?thesis
    by simp
qed

section \<open>Errors at the HTTP boundary\<close>

text \<open>
  C9, as the code has it. On every route but \<^verbatim>\<open>GET /health\<close>, a driver call that fails
  with a message makes the response 500 with body \<open>{error: message}\<close>, the message
  unchanged. On \<^verbatim>\<open>GET /health\<close> the response is 500 with the fixed body
  \<open>{status: 'error', message: 'Database connection failed'}\<close>. A 500 is sent only after a
  failed driver call. A delete that changed no row answers 404, and only the delete
  route answers 404.
\<close>

theorem store_errors_at_the_boundary:
  assumes run: "handle e db r = (db', resp, tr)"
  shows "((c, Some err) \<in> set tr \<and> r \<noteq> GET_health
          \<longrightarrow> resp = \<lparr>status = 500, json = JObject [(''error'', JStr err)]\<rparr>)
       \<and> ((c, Some err) \<in> set tr \<and> r = GET_health
          \<longrightarrow> resp = \<lparr>status = 500,
                       json = JObject [(''status'', JStr ''error''),
                                       (''message'', JStr ''Database connection failed'')]\<rparr>)
       \<and> (status resp = 500 \<longrightarrow> (\<exists>c' err'. (c', Some err') \<in> set tr))
       \<and> (r = DELETE_api_transactions p
            \<and> db_run (fault_at e 0) db (DELETE_transactions (JStr p)) = Inr (db1, ctx)
            \<and> changes ctx = 0
          \<longrightarrow> resp = \<lparr>status = 404, json = JObject [(''error'', JStr ''Transaction not found'')]\<rparr>)
       \<and> (status resp = 404 \<longrightarrow> (\<exists>p'. r = DELETE_api_transactions p'))"
proof (cases r)
  case GET_health
  with run show ?thesis
    by (auto simp: get_health_def split: sum.splits)
next
  case GET_api_users
  with run show ?thesis
    by (auto simp: get_api_users_def split: sum.splits)
next
  case (POST_api_users body)
  with run show ?thesis
    by (auto simp: post_api_users_def Let_def split: sum.splits)
next
  case (GET_api_resettoken q)
  with run show ?thesis
    by (auto simp: get_api_resettoken_def Let_def split: sum.splits)
next
  case (POST_api_resettoken body)
  with run show ?thesis
    by (auto simp: post_api_resettoken_def Let_def split: sum.splits)
next
  case (PUT_api_users body)
  with run show ?thesis
    by (auto simp: put_api_users_def Let_def split: sum.splits)
next
  case (PUT_api_password body)
  with run show ?thesis
    by (auto simp: put_api_password_def Let_def split: sum.splits)
next
  case (POST_api_transactions body)
  with run show ?thesis
    by (auto simp: post_api_transactions_def Let_def split: sum.splits)
next
  case (GET_api_transactions u)
  with run show ?thesis
    by (auto simp: get_api_transactions_def Let_def split: sum.splits)
next
  case (DELETE_api_transactions q)
  with run show ?thesis
    by (auto simp: delete_api_transactions_def Let_def split: sum.splits if_splits)
qed

theorem store_errors_at_the_boundary_witness:
  "handle first_call_fails init_store GET_api_users =
     (init_store,
      \<lparr>status = 500, json = JObject [(''error'', JStr ''SQLITE_CANTOPEN: unable to open database file'')]\<rparr>,
      [(All SELECT_users, Some ''SQLITE_CANTOPEN: unable to open database file'')])
   \<and> handle first_call_fails init_store GET_health =
     (init_store,
      \<lparr>status = 500,
        json = JObject [(''status'', JStr ''error''), (''message'', JStr ''Database connection failed'')]\<rparr>,
      [(Get SELECT_1, Some ''SQLITE_CANTOPEN: unable to open database file'')])
   \<and> handle quiet init_store (DELETE_api_transactions ''1'') =
     (init_store,
      \<lparr>status = 404, json = JObject [(''error'', JStr ''Transaction not found'')]\<rparr>,
      [(Run (DELETE_transactions (JStr ''1'')), None)])
   \<and> (\<exists>p'. DELETE_api_transactions ''1'' = DELETE_api_transactions p')"
proof -
  let ?m = "''SQLITE_CANTOPEN: unable to open database file''"
  have r1: "handle first_call_fails init_store GET_api_users =
     (init_store, \<lparr>status = 500, json = JObject [(''error'', JStr ?m)]\<rparr>,
      [(All SELECT_users, Some ?m)])"
    by (simp add: eval_defs quiet_def first_call_fails_def get_api_users_def)
  have r2: "handle first_call_fails init_store GET_health =
     (init_store,
      \<lparr>status = 500,
        json = JObject [(''status'', JStr ''error''), (''message'', JStr ''Database connection failed'')]\<rparr>,
      [(Get SELECT_1, Some ?m)])"
    by (simp add: eval_defs quiet_def first_call_fails_def get_health_def)
  have r3: "handle quiet init_store (DELETE_api_transactions ''1'') =
     (init_store,
      \<lparr>status = 404, json = JObject [(''error'', JStr ''Transaction not found'')]\<rparr>,
      [(Run (DELETE_transactions (JStr ''1'')), None)])"
    by (simp add: eval_defs quiet_def first_call_fails_def delete_api_transactions_def)
  have st: "status \<lparr>status = 404, json = JObject [(''error'', JStr ''Transaction not found'')]\<rparr> = 404"
    by simp
  from store_errors_at_the_boundary [OF r3, THEN conjunct2, THEN conjunct2, THEN conjunct2,
      THEN conjunct2, THEN mp, OF st]
  have "\<exists>p'. DELETE_api_transactions ''1'' = DELETE_api_transactions p'" .
  with r1 r2 r3 show ?thesis
    by blast
qed

text \<open>
  C9, as the claim states it, fails on \<^verbatim>\<open>GET /health\<close>: the body is not \<open>{error: message}\<close>
  and the store's message is not in it.
\<close>

theorem store_errors_at_the_boundary_counterexample:
  "get_health first_call_fails init_store =
     (init_store,
      \<lparr>status = 500,
        json = JObject [(''status'', JStr ''error''), (''message'', JStr ''Database connection failed'')]\<rparr>,
      [(Get SELECT_1, Some ''SQLITE_CANTOPEN: unable to open database file'')])
   \<and> json (fst (snd (get_health first_call_fails init_store))) \<noteq>
       JObject [(''error'', JStr ''SQLITE_CANTOPEN: unable to open database file'')]"
  by (simp add: eval_defs first_call_fails_def get_health_def)

end
